theory Spec2Isabelle
  imports Complex_Main
begin

section \<open>JavaScript primitives the modules rely on\<close>

text \<open>
  Numbers are modelled as unbounded integers (every number the modules compute from
  integer inputs is an integer); where an operation can yield \<open>NaN\<close> or
  \<open>undefined\<close> the result is an \<open>option\<close> with \<open>None\<close> for that value.
  The source's numbers are doubles, which hold every integer of magnitude below
  \<open>2^53\<close> exactly: the model agrees with the code as long as the numbers stay
  below that bound, and a statement that depends on the value of a number read from a
  text says so. Strings are lists of 8-bit characters, so a text with a character
  beyond \<open>U+00FF\<close> is outside the model.

  The only exception the modelled code can throw is a \<open>TypeError\<close> (a property
  read on \<open>undefined\<close>). \<open>NumberIsNaN\<close> is not an exception: it marks the
  places where the code would carry on with an interval number or a main number that
  is \<open>NaN\<close>, which the model's integers cannot hold. No caller in the modules
  reaches them.
\<close>

datatype error = TypeError | NumberIsNaN

text \<open>The remainder operator \<open>%\<close>: the result takes the sign of the dividend.\<close>

definition jsrem :: "int \<Rightarrow> int \<Rightarrow> int" where
  "jsrem a b = sgn a * (\<bar>a\<bar> mod \<bar>b\<bar>)"

text \<open>Array (and string) indexing: \<open>undefined\<close> outside the array.\<close>

definition js_nth :: "'a list \<Rightarrow> int \<Rightarrow> 'a option" where
  "js_nth xs i = (if 0 \<le> i \<and> i < int (length xs) then Some (xs ! nat i) else None)"

text \<open>\<open>Array.prototype.indexOf\<close>: the first index of the element, or \<open>-1\<close>.\<close>

fun indexOf_from :: "int \<Rightarrow> 'a list \<Rightarrow> 'a \<Rightarrow> int" where
  "indexOf_from k [] x = -1"
| "indexOf_from k (y # ys) x = (if y = x then k else indexOf_from (k + 1) ys x)"

definition indexOf :: "'a list \<Rightarrow> 'a \<Rightarrow> int" where
  "indexOf xs x = indexOf_from 0 xs x"

definition is_digit :: "char \<Rightarrow> bool" where
  "is_digit c = (c \<in> set ''0123456789'')"

text \<open>Number-to-string conversion of an integer: decimal digits, \<open>-\<close> when negative.\<close>

definition digit_char :: "nat \<Rightarrow> char" where
  "digit_char d = ''0123456789'' ! d"

fun show_nat :: "nat \<Rightarrow> string" where
  "show_nat n = (if n < 10 then [digit_char n] else show_nat (n div 10) @ [digit_char (n mod 10)])"

declare show_nat.simps [simp del]

definition show_int :: "int \<Rightarrow> string" where
  "show_int i = (if i < 0 then CHR ''-'' # show_nat (nat (- i)) else show_nat (nat i))"

text \<open>
  \<open>parseInt\<close> in base ten: leading white space is skipped, then an optional sign
  and the longest run of digits after it are read; the result is \<open>NaN\<close>
  (\<open>None\<close>) when there is no digit. The value is the exact integer; the source
  returns it as a double, so the two agree for values below \<open>2^53\<close>. Some calls
  of the source pass no radix, where a \<open>0x\<close> prefix would be read as
  hexadecimal: the strings of those calls are digit runs or decimal renderings, which
  hold no \<open>x\<close>.
\<close>

definition is_space :: "char \<Rightarrow> bool" where
  "is_space c =
     (c \<in> set [CHR 0x09, CHR 0x0A, CHR 0x0B, CHR 0x0C, CHR 0x0D, CHR 0x20, CHR 0xA0])"

definition digit_val :: "char \<Rightarrow> nat" where
  "digit_val c = nat (indexOf ''0123456789'' c)"

definition digits_val :: "string \<Rightarrow> nat" where
  "digits_val ds = foldl (\<lambda>a c. 10 * a + digit_val c) 0 ds"

definition parseInt :: "string \<Rightarrow> int option" where
  "parseInt s =
     (let t = dropWhile is_space s;
          neg = (take 1 t = ''-'');
          r = (if take 1 t = ''-'' \<or> take 1 t = ''+'' then drop 1 t else t);
          ds = takeWhile is_digit r
      in if ds = [] then None
         else Some (if neg then - int (digits_val ds) else int (digits_val ds)))"

text \<open>
  \<open>Number(s)\<close> on a string, as far as the modules need it: the empty string is
  \<open>0\<close>, a signed run of digits is its value, anything else here is \<open>NaN\<close>.
  Fractions, exponents, radix prefixes, \<open>Infinity\<close> and surrounding white space are
  left out; each of them starts with a digit, a sign, a dot, \<open>I\<close> or a blank.
\<close>

definition js_Number :: "string \<Rightarrow> int option" where
  "js_Number s =
     (if s = [] then Some 0
      else let r = (if take 1 s = ''-'' \<or> take 1 s = ''+'' then drop 1 s else s)
           in if r \<noteq> [] \<and> list_all is_digit r then parseInt s else None)"

section \<open>Interval\<close>

record Interval =
  number :: int
  quality :: int

text \<open>The constructor folds a quality outside \<open>(-12, 12)\<close> back with \<open>%\<close>.\<close>

definition Interval_new :: "int \<Rightarrow> int \<Rightarrow> Interval" where
  "Interval_new n q =
     \<lparr>number = n, quality = (if q \<le> -12 \<or> q \<ge> 12 then jsrem q 12 else q)\<rparr>"

definition perfect_class :: "int \<Rightarrow> bool" where
  "perfect_class n = (jsrem n 7 \<in> set [1, 4, 5])"

definition Interval_ordinal :: "int \<Rightarrow> string" where
  "Interval_ordinal n =
     (case js_nth [''st'', ''nd'', ''rd''] (jsrem n 10 - 1) of Some t \<Rightarrow> t | None \<Rightarrow> ''th'')"

definition Interval_name :: "Interval \<Rightarrow> string" where
  "Interval_name i =
     (let name = (if quality i = 1 then ''augmented''
                  else if perfect_class (number i)
                       then (if quality i = -1 then ''diminished'' else ''perfect'')
                  else if quality i = -2 then ''diminished''
                  else if quality i = -1 then ''minor''
                  else ''major'')
      in name @ '' '' @ show_int (number i) @ Interval_ordinal (number i))"

definition Interval_toString :: "Interval \<Rightarrow> string" where
  "Interval_toString i =
     (let name = (if quality i = 1 then ''A''
                  else if perfect_class (number i)
                       then (if quality i = -1 then ''D'' else ''P'')
                  else if quality i = -2 then ''D''
                  else if quality i = -1 then ''m''
                  else ''M'')
      in name @ show_int (number i))"

text \<open>
  \<open>strToInterval\<close> receives \<open>undefined\<close> when a table is read past its end;
  reading \<open>intervalStr[0]\<close> then throws.
\<close>

definition qualityMap_perfect :: "string \<Rightarrow> int" where
  "qualityMap_perfect c =
     (if c = ''P'' then 0 else if c = ''A'' then 1 else if c = ''D'' then -1 else 0)"

definition qualityMap_major :: "string \<Rightarrow> int" where
  "qualityMap_major c =
     (if c = ''M'' then 0 else if c = ''m'' then -1 else if c = ''A'' then 1
      else if c = ''D'' then -2 else 0)"

text \<open>
  Every string the modules pass has a number after its first character. For a string
  without one the code does not throw: it builds an interval whose number is
  \<open>NaN\<close>, which the record cannot hold; the model marks that with
  \<open>NumberIsNaN\<close>.
\<close>

definition Interval_strToInterval :: "string option \<Rightarrow> error + Interval" where
  "Interval_strToInterval arg =
     (case arg of
        None \<Rightarrow> Inl TypeError
      | Some intervalStr \<Rightarrow>
          (case parseInt (drop 1 intervalStr) of
             None \<Rightarrow> Inl NumberIsNaN
           | Some n \<Rightarrow>
               Inr (Interval_new n
                 (if perfect_class n then qualityMap_perfect (take 1 intervalStr)
                  else qualityMap_major (take 1 intervalStr)))))"

definition semitone_table :: "int list" where
  "semitone_table = [0, 2, 4, 5, 7, 9, 11]"

text \<open>\<open>toSemitones\<close> is \<open>NaN\<close> when the table is read at a negative index.\<close>

definition Interval_toSemitones :: "Interval \<Rightarrow> int option" where
  "Interval_toSemitones i =
     (case js_nth semitone_table (jsrem (number i - 1) 7) of
        None \<Rightarrow> None
      | Some t \<Rightarrow> Some (t + quality i + ((number i - 1) div 7) * 12))"

text \<open>
  Chords and scales keep their intervals sorted by number, then quality
  (\<open>a.number - b.number || a.quality - b.quality\<close>); the sort is stable.
\<close>

definition interval_cmp :: "Interval \<Rightarrow> Interval \<Rightarrow> int" where
  "interval_cmp a b =
     (if number a - number b \<noteq> 0 then number a - number b else quality a - quality b)"

fun insert_interval :: "Interval \<Rightarrow> Interval list \<Rightarrow> Interval list" where
  "insert_interval x [] = [x]"
| "insert_interval x (y # ys) =
     (if interval_cmp x y \<le> 0 then x # y # ys else y # insert_interval x ys)"

definition sort_intervals :: "Interval list \<Rightarrow> Interval list" where
  "sort_intervals xs = foldr insert_interval xs []"

section \<open>Note\<close>

text \<open>
  A note keeps the first character of its name as \<open>letter\<close> and the rest as
  \<open>accidental\<close>. The constructor throws when the name is \<open>undefined\<close>
  (a chromatic table read outside its range). For the empty name the code stores
  \<open>undefined\<close> as the letter: the empty \<open>letter\<close> stands for it, it is found
  in no table (index \<open>-1\<close>), and it is written \<open>undefined\<close> where the letter
  is put into a text.
\<close>

record Note =
  letter :: string
  accidental :: string
  octave :: int

definition NOTES :: "string list" where
  "NOTES = [''C'', ''C#'', ''D'', ''D#'', ''E'', ''F'', ''F#'', ''G'', ''G#'', ''A'', ''A#'', ''B'']"

definition Note_new :: "string option \<Rightarrow> int \<Rightarrow> error + Note" where
  "Note_new name oct =
     (case name of
        None \<Rightarrow> Inl TypeError
      | Some s \<Rightarrow> Inr \<lparr>letter = take 1 s, accidental = drop 1 s, octave = oct\<rparr>)"

definition letter_text :: "Note \<Rightarrow> string" where
  "letter_text n = (if letter n = [] then ''undefined'' else letter n)"

definition Note_toString :: "Note \<Rightarrow> string" where
  "Note_toString n = letter_text n @ accidental n @ show_int (octave n)"

definition accidentalCount :: "Note \<Rightarrow> int" where
  "accidentalCount n =
     int (length (filter (\<lambda>c. c = CHR ''#'') (accidental n)))
     - int (length (filter (\<lambda>c. c = CHR ''b'') (accidental n)))"

definition Note_midi :: "Note \<Rightarrow> int" where
  "Note_midi n = 12 * (octave n + 1) + (indexOf NOTES (letter n) + accidentalCount n)"

text \<open>
  The option bag of \<open>enharmonicEquiv\<close>: a field that the caller leaves out is
  \<open>undefined\<close> (\<open>None\<close>, and \<open>False\<close> for \<open>force\<close>). Without an argument
  the defaults are \<open>favor = "natural"\<close>, \<open>force = false\<close> and the empty \<open>letter\<close>.
\<close>

record enh_options =
  opt_favor :: "string option"
  opt_force :: bool
  opt_letter :: "string option"

definition default_options :: enh_options where
  "default_options = \<lparr>opt_favor = Some ''natural'', opt_force = False, opt_letter = Some []\<rparr>"

definition or_undefined :: "string option \<Rightarrow> string" where
  "or_undefined s = (case s of None \<Rightarrow> ''undefined'' | Some t \<Rightarrow> t)"

definition respell_with_letter :: "string \<Rightarrow> int \<Rightarrow> string option \<Rightarrow> string option" where
  "respell_with_letter l shiftedIndex enharmonicNote =
     (let letterIndex = indexOf NOTES l;
          d = jsrem (shiftedIndex - letterIndex) 12;
          diff = (if d > 6 then d - 12 else if d < -6 then d + 12 else d)
      in if diff > 0 then Some (l @ replicate (nat diff) CHR ''#'')
         else if diff < 0 then Some (l @ replicate (nat (- diff)) CHR ''b'')
         else enharmonicNote)"

definition respell_by_favor ::
  "string option \<Rightarrow> bool \<Rightarrow> int \<Rightarrow> string option \<Rightarrow> error + string option" where
  "respell_by_favor favor force shiftedIndex enharmonicNote =
     (if favor = Some ''flat'' \<and> enharmonicNote = None then Inl TypeError
      else
        let e1 = (if favor = Some ''flat'' \<and> CHR ''#'' \<in> set (or_undefined enharmonicNote)
                  then Some (or_undefined (js_nth NOTES (jsrem (shiftedIndex + 1) 12)) @ ''b'')
                  else enharmonicNote);
            e2 = (if force
                  then (if favor = Some ''sharp'' \<and> e1 \<in> set [Some ''C'', Some ''F'']
                        then Some (or_undefined (js_nth NOTES (jsrem (shiftedIndex - 1) 12)) @ ''#'')
                        else if favor = Some ''flat'' \<and> e1 \<in> set [Some ''B'', Some ''E'']
                        then Some (or_undefined (js_nth NOTES (jsrem (shiftedIndex + 1) 12)) @ ''b'')
                        else e1)
                  else e1)
        in Inr e2)"

definition Note_enharmonicEquiv :: "enh_options option \<Rightarrow> Note \<Rightarrow> error + Note" where
  "Note_enharmonicEquiv arg n =
     (let opts = (case arg of None \<Rightarrow> default_options | Some a \<Rightarrow> a);
          baseIndex = indexOf NOTES (letter n);
          shiftedIndex = jsrem (baseIndex + accidentalCount n) 12;
          enharmonicNote = js_nth NOTES shiftedIndex;
          respelled =
            (case opt_letter opts of
               None \<Rightarrow> respell_by_favor (opt_favor opts) (opt_force opts) shiftedIndex enharmonicNote
             | Some l \<Rightarrow>
                 if l \<noteq> [] then Inr (respell_with_letter l shiftedIndex enharmonicNote)
                 else respell_by_favor (opt_favor opts) (opt_force opts) shiftedIndex enharmonicNote)
      in case respelled of
           Inl e \<Rightarrow> Inl e
         | Inr e \<Rightarrow>
             Note_new e (if e = Some ''B#'' then octave n - 1
                         else if e = Some ''Cb'' then octave n + 1
                         else octave n))"

definition Note_intToNote :: "int \<Rightarrow> error + Note" where
  "Note_intToNote num = Note_new (js_nth NOTES (jsrem num 12)) (num div 12 - 1)"

text \<open>
  \<open>strToNote\<close> searches the text for \<open>([A-Ga-g]+)([0-9]+)\<close>: the leftmost
  position from which a run of letters is followed by a digit; both groups are greedy.
  A shorter run of letters never helps, since the character after it is a letter.
  The result is \<open>null\<close> (\<open>None\<close>) when nothing matches.
\<close>

definition is_note_letter :: "char \<Rightarrow> bool" where
  "is_note_letter c = (c \<in> set ''ABCDEFGabcdefg'')"

fun match_note :: "string \<Rightarrow> (string \<times> string) option" where
  "match_note [] = None"
| "match_note (c # cs) =
     (if takeWhile is_note_letter (c # cs) \<noteq> []
         \<and> takeWhile is_digit (dropWhile is_note_letter (c # cs)) \<noteq> []
      then Some (takeWhile is_note_letter (c # cs),
                 takeWhile is_digit (dropWhile is_note_letter (c # cs)))
      else match_note cs)"

definition Note_strToNote :: "string \<Rightarrow> Note option" where
  "Note_strToNote t =
     (case match_note t of
        None \<Rightarrow> None
      | Some (ls, ds) \<Rightarrow>
          (case parseInt ds of
             None \<Rightarrow> None
           | Some n \<Rightarrow> Some \<lparr>letter = take 1 ls, accidental = drop 1 ls, octave = n\<rparr>))"

definition Note_toSemitones :: "Note \<Rightarrow> error + int" where
  "Note_toSemitones n =
     (case Note_enharmonicEquiv None n of
        Inl e \<Rightarrow> Inl e
      | Inr equivThis \<Rightarrow>
          Inr (indexOf NOTES (letter equivThis @ accidental equivThis) + octave n * 12 + 12))"

text \<open>\<open>"CDEFGAB".indexOf(letter)\<close> for a letter of one character, \<open>-1\<close> otherwise.\<close>

definition letters_indexOf :: "string \<Rightarrow> int" where
  "letters_indexOf l = (case l of [c] \<Rightarrow> indexOf ''CDEFGAB'' c | _ \<Rightarrow> -1)"

text \<open>
  \<open>add\<close>: when the interval's semitones are \<open>NaN\<close>, \<open>intToNote\<close> reads the
  chromatic table at \<open>NaN\<close> and the constructor throws.
\<close>

definition Note_add :: "Note \<Rightarrow> Interval \<Rightarrow> error + Note" where
  "Note_add n i =
     (case Note_toSemitones n of
        Inl e \<Rightarrow> Inl e
      | Inr s \<Rightarrow>
          (case Interval_toSemitones i of
             None \<Rightarrow> Inl TypeError
           | Some t \<Rightarrow>
               (case Note_intToNote (s + t) of
                  Inl e \<Rightarrow> Inl e
                | Inr note \<Rightarrow>
                    let selfIndex = letters_indexOf (letter n);
                        newLetter = js_nth ''CDEFGAB'' (jsrem (selfIndex + number i - 1) 7)
                    in Note_enharmonicEquiv
                         (Some \<lparr>opt_favor = None, opt_force = False,
                                opt_letter = map_option (\<lambda>c. [c]) newLetter\<rparr>) note)))"

text \<open>
  \<open>subtract\<close> returns \<open>new Interval(diatonicInterval, quality)\<close>. The quality is
  \<open>NaN\<close> when the semitone table is read at a negative index, and the constructor
  keeps a \<open>NaN\<close> as it is; the result is the pair of the constructed interval's
  fields, the quality \<open>None\<close> for \<open>NaN\<close>.
\<close>

definition Note_subtract :: "Note \<Rightarrow> Note \<Rightarrow> error + (int \<times> int option)" where
  "Note_subtract n other =
     (let selfIndex = letters_indexOf (letter n);
          otherIndex = letters_indexOf (letter other);
          octaveDifference = octave n - octave other - (if selfIndex < otherIndex then 1 else 0);
          diatonicInterval = jsrem (selfIndex - otherIndex) 7 + 1 + octaveDifference * 7
      in case Note_toSemitones n of
           Inl e \<Rightarrow> Inl e
         | Inr a \<Rightarrow>
             (case Note_toSemitones other of
                Inl e \<Rightarrow> Inl e
              | Inr b \<Rightarrow>
                  Inr (diatonicInterval,
                       case js_nth semitone_table (jsrem (diatonicInterval - 1) 7) of
                         None \<Rightarrow> None
                       | Some t \<Rightarrow>
                           Some (quality (Interval_new diatonicInterval
                                   (a - b - (t + octaveDifference * 12)))))))"

text \<open>Mapping a throwing function over a list stops at the first exception.\<close>

fun map_result :: "('a \<Rightarrow> error + 'b) \<Rightarrow> 'a list \<Rightarrow> error + 'b list" where
  "map_result f [] = Inr []"
| "map_result f (x # xs) =
     (case f x of
        Inl e \<Rightarrow> Inl e
      | Inr y \<Rightarrow> (case map_result f xs of Inl e \<Rightarrow> Inl e | Inr ys \<Rightarrow> Inr (y # ys)))"

text \<open>A pitch class as the callers compute it: \<open>toSemitones() % 12\<close>.\<close>

definition pitch_class :: "Note \<Rightarrow> error + int" where
  "pitch_class n = (case Note_toSemitones n of Inl e \<Rightarrow> Inl e | Inr s \<Rightarrow> Inr (jsrem s 12))"

section \<open>Scale\<close>

datatype scale = Scale Note "Interval list"

fun scale_base :: "scale \<Rightarrow> Note" where
  "scale_base (Scale b ivs) = b"

fun scale_intervals :: "scale \<Rightarrow> Interval list" where
  "scale_intervals (Scale b ivs) = ivs"

definition Scale_new :: "Note \<Rightarrow> Interval list \<Rightarrow> scale" where
  "Scale_new b ivs = Scale b (sort_intervals ivs)"

definition SCALES :: "string list" where
  "SCALES = [''major'', ''natural minor'', ''harmonic minor'', ''melodic minor'',
             ''major pentatonic scale'', ''minor pentatonic scale'', ''blues scale'']"

definition Scale_notes :: "scale \<Rightarrow> error + Note list" where
  "Scale_notes s =
     (case map_result (Note_add (scale_base s)) (scale_intervals s) of
        Inl e \<Rightarrow> Inl e
      | Inr ns \<Rightarrow> Inr (scale_base s # ns))"

text \<open>
  \<open>scale.intervals[i].quality = -1\<close> for each listed index (all below the six
  entries of the template), and the filter that drops the listed indices.
\<close>

definition flatten_at :: "nat list \<Rightarrow> Interval list \<Rightarrow> Interval list" where
  "flatten_at idxs ivs = fold (\<lambda>i xs. xs[i := (xs ! i)\<lparr>quality := -1\<rparr>]) idxs ivs"

definition drop_indices :: "nat list \<Rightarrow> 'a list \<Rightarrow> 'a list" where
  "drop_indices idxs xs = map snd (filter (\<lambda>p. fst p \<notin> set idxs) (enumerate 0 xs))"

definition major_template :: "Interval list" where
  "major_template = sort_intervals (map (\<lambda>i. Interval_new (int i + 2) 0) [0..<6])"

text \<open>
  \<open>generateScale\<close> with the base passed by the caller, as every caller modelled
  here does. An unlisted name takes the \<open>default\<close> branch: \<open>new Scale(base)\<close>.
\<close>

definition Scale_generateScale :: "string \<Rightarrow> Note \<Rightarrow> scale" where
  "Scale_generateScale name b =
     (if name = ''major'' then Scale b major_template
      else if name = ''natural minor'' then Scale b (flatten_at [1, 4, 5] major_template)
      else if name = ''harmonic minor'' then Scale b (flatten_at [1, 4] major_template)
      else if name = ''melodic minor'' then Scale b (flatten_at [1] major_template)
      else if name = ''major pentatonic scale'' then Scale b (drop_indices [2, 5] major_template)
      else if name = ''minor pentatonic scale''
        then Scale b (drop_indices [0, 4] (flatten_at [1, 5] major_template))
      else if name = ''blues scale''
        then Scale b (sort_intervals
               (drop_indices [0, 4] (flatten_at [1, 5] major_template) @ [Interval_new 4 1]))
      else Scale_new b [])"

section \<open>Chord: classification\<close>

text \<open>
  A chord is its sorted interval list; a \<open>ChordWithBase\<close> carries its root as well.
  Both constructors sort by number, then quality.
\<close>

datatype chord = Chord "Interval list" | ChordWithBase Note "Interval list"

fun intervals :: "chord \<Rightarrow> Interval list" where
  "intervals (Chord ivs) = ivs"
| "intervals (ChordWithBase b ivs) = ivs"

fun chord_base :: "chord \<Rightarrow> Note option" where
  "chord_base (Chord ivs) = None"
| "chord_base (ChordWithBase b ivs) = Some b"

definition Chord_new :: "Interval list \<Rightarrow> chord" where
  "Chord_new ivs = Chord (sort_intervals ivs)"

definition ChordWithBase_new :: "Note \<Rightarrow> Interval list \<Rightarrow> chord" where
  "ChordWithBase_new b ivs = ChordWithBase b (sort_intervals ivs)"

definition MAINS :: "string \<Rightarrow> string list option" where
  "MAINS q =
     (if q = ''dim'' then Some [''P1'', ''m3'', ''D5'', ''D7'', ''M9'', ''P11'', ''M13'']
      else if q = ''min'' then Some [''P1'', ''m3'', ''P5'', ''m7'', ''M9'', ''P11'', ''M13'']
      else if q = ''dom'' then Some [''P1'', ''M3'', ''P5'', ''m7'', ''M9'', ''P11'', ''M13'']
      else if q = ''maj'' then Some [''P1'', ''M3'', ''P5'', ''M7'', ''M9'', ''P11'', ''M13'']
      else None)"

text \<open>The chord's intervals as strings: \<open>this.intervals.map(i => String(i))\<close>.\<close>

definition interval_strings :: "chord \<Rightarrow> string list" where
  "interval_strings c = map Interval_toString (intervals c)"

definition Chord_quality :: "chord \<Rightarrow> string" where
  "Chord_quality c =
     (if ''m3'' \<in> set (interval_strings c)
      then (if ''D5'' \<in> set (interval_strings c) \<and> ''D7'' \<in> set (interval_strings c)
            then ''dim'' else ''min'')
      else if ''M7'' \<in> set (interval_strings c) then ''maj''
      else ''dom'')"

definition Chord_sus :: "chord \<Rightarrow> string" where
  "Chord_sus c =
     (if ''m3'' \<notin> set (interval_strings c) \<and> ''M3'' \<notin> set (interval_strings c)
         \<and> ''M2'' \<in> set (interval_strings c)
      then ''sus2''
      else if ''M4'' \<in> set (interval_strings c) then ''sus4''
      else [])"

text \<open>
  \<open>structure\<close> filters with \<open>i % 2\<close> on the interval objects themselves: the object
  is converted to a number through its \<open>toString\<close>, and \<open>NaN % 2\<close> is falsy.
  \<open>Math.max\<close> of no argument is \<open>-Infinity\<close> (\<open>None\<close>).
\<close>

definition truthy_mod2 :: "Interval \<Rightarrow> bool" where
  "truthy_mod2 i =
     (case js_Number (Interval_toString i) of
        None \<Rightarrow> False
      | Some v \<Rightarrow> jsrem v 2 \<noteq> 0)"

definition Math_max :: "int list \<Rightarrow> int option" where
  "Math_max xs = (case xs of [] \<Rightarrow> None | y # ys \<Rightarrow> Some (foldl max y ys))"

definition Chord_structure :: "chord \<Rightarrow> string" where
  "Chord_structure c =
     (if length (intervals c) = 1 \<and> map Interval_toString (take 1 (intervals c)) = [''P5'']
      then ''power''
      else let notes = Math_max (map quality (filter truthy_mod2 (intervals c)))
           in if notes = Some 1 then ''unison''
              else if notes = Some 3 then ''third''
              else if notes = Some 5 then ''triad''
              else if notes = Some 7 then ''seventh''
              else if notes = Some 9 then ''ninth''
              else if notes = Some 11 then ''eleventh''
              else if notes = Some 13 then ''thirteenth''
              else [])"


section \<open>Chord: the identifier codec\<close>

text \<open>
  \<open>id\<close> collects alterations with \<open>new Interval(interval)\<close>, the constructor
  applied to the interval's string alone: the object's \<open>number\<close> is that string and
  its \<open>quality\<close> is \<open>undefined\<close>. The sus addition is \<open>new Interval(4, 0)\<close>.
  Both kinds are rendered by the same expression, so the fields are kept as they are.
\<close>

datatype number_field = NumberField int | StringField string

record raw_interval =
  raw_number :: number_field
  raw_quality :: "int option"

definition render_raw :: "raw_interval \<Rightarrow> string" where
  "render_raw r =
     (case raw_quality r of
        None \<Rightarrow> []
      | Some q \<Rightarrow> if q > 0 then ''#'' else if q < 0 then ''b'' else [])
     @ (case raw_number r of NumberField n \<Rightarrow> show_int n | StringField t \<Rightarrow> t)"

definition MAINS_tables :: "string list list" where
  "MAINS_tables =
     [[''P1'', ''m3'', ''D5'', ''D7'', ''M9'', ''P11'', ''M13''],
      [''P1'', ''m3'', ''P5'', ''m7'', ''M9'', ''P11'', ''M13''],
      [''P1'', ''M3'', ''P5'', ''m7'', ''M9'', ''P11'', ''M13''],
      [''P1'', ''M3'', ''P5'', ''M7'', ''M9'', ''P11'', ''M13'']]"

text \<open>\<open>Object.values(Chord.MAINS).map(m => m[i]).reverse()\<close>.\<close>

definition mains_column :: "int \<Rightarrow> string option list" where
  "mains_column i = rev (map (\<lambda>m. js_nth m i) MAINS_tables)"

text \<open>
  The search for the main number: degrees from the top down, the chord's intervals in
  order inside, stopping at the first interval found in the degree's column.
\<close>

definition find_mainNumber :: "string list \<Rightarrow> string" where
  "find_mainNumber strs =
     (case concat (map (\<lambda>i. filter (\<lambda>t. Some t \<in> set (mains_column i)) strs) [6, 5, 4, 3, 2, 1]) of
        [] \<Rightarrow> ''1''
      | t # ts \<Rightarrow> drop 1 t)"

definition is_alteration :: "string \<Rightarrow> string \<Rightarrow> bool" where
  "is_alteration q t =
     (case parseInt (drop 1 t) of
        None \<Rightarrow> False
      | Some n \<Rightarrow>
          jsrem n 2 = 1 \<and> Some t \<noteq> (case MAINS q of None \<Rightarrow> None | Some m \<Rightarrow> js_nth m (n div 2)))"

definition is_addition :: "string \<Rightarrow> string \<Rightarrow> string \<Rightarrow> bool" where
  "is_addition q sus t =
     (case parseInt (drop 1 t) of
        None \<Rightarrow> False
      | Some n \<Rightarrow> \<not> is_alteration q t \<and> jsrem n 2 = 0 \<and> drop 3 sus \<noteq> show_int n)"

definition Chord_id :: "chord \<Rightarrow> Note option \<Rightarrow> string" where
  "Chord_id c base =
     (let strs = interval_strings c;
          mainNumber = find_mainNumber strs;
          sus = Chord_sus c;
          quality = Chord_quality c;
          sus_additions =
            (if sus = ''sus2'' \<and> ''M4'' \<in> set strs
             then [\<lparr>raw_number = NumberField 4, raw_quality = Some 0\<rparr>] else []);
          aug = (''A5'' \<in> set strs);
          alterations =
            map (\<lambda>t. \<lparr>raw_number = StringField t, raw_quality = None\<rparr>)
              (filter (is_alteration quality) strs);
          additions =
            sus_additions @
            map (\<lambda>t. \<lparr>raw_number = StringField t, raw_quality = None\<rparr>)
              (filter (is_addition quality sus) strs);
          shown_quality =
            (if quality = ''dom''
                \<or> (quality = ''maj'' \<and> (case parseInt mainNumber of None \<Rightarrow> False | Some m \<Rightarrow> m \<le> 5))
             then [] else quality);
          shown_number = (if mainNumber = ''5'' \<or> mainNumber = ''1'' then [] else mainNumber)
      in (case base of None \<Rightarrow> [] | Some b \<Rightarrow> letter_text b) @ ''^''
         @ (if aug then ''aug'' else [])
         @ sus @ shown_quality @ shown_number
         @ concat (map render_raw alterations) @ concat (map render_raw additions))"

text \<open>A rooted chord's \<open>id()\<close> takes its own base by default.\<close>

definition ChordWithBase_id :: "chord \<Rightarrow> string" where
  "ChordWithBase_id c = Chord_id c (chord_base c)"

subsection \<open>The patterns of \<open>idToChord\<close>\<close>

text \<open>
  Each regular expression is written out as the search it performs: the leftmost
  position where it matches, greedy repetition, and for a global pattern the matches
  from left to right without overlap. Strings hold 8-bit characters, so the natural
  sign of the alteration pattern never occurs.
\<close>

definition match_base :: "string \<Rightarrow> string option" where
  "match_base t =
     (case t of
        [] \<Rightarrow> None
      | c # cs \<Rightarrow> if c \<in> set ''ABCDEFG'' then Some (c # takeWhile (\<lambda>x. x \<in> set ''#b'') cs) else None)"

fun contains_aug :: "string \<Rightarrow> bool" where
  "contains_aug [] = False"
| "contains_aug (c # cs) = (take 3 (c # cs) = ''aug'' \<or> contains_aug cs)"

fun match_sus :: "string \<Rightarrow> string option" where
  "match_sus [] = None"
| "match_sus (c # cs) =
     (if take 3 (c # cs) = ''sus'' \<and> takeWhile is_digit (drop 3 (c # cs)) \<noteq> []
      then Some (''sus'' @ takeWhile is_digit (drop 3 (c # cs)))
      else match_sus cs)"

fun match_quality :: "string \<Rightarrow> string option" where
  "match_quality [] = None"
| "match_quality (c # cs) =
     (if take 4 (c # cs) \<in> set [''^min'', ''^maj'', ''^aug'', ''^dim'', ''^dom'']
      then Some (take 4 (c # cs))
      else match_quality cs)"

definition match_mainNumber :: "string \<Rightarrow> string option" where
  "match_mainNumber t =
     (let r = dropWhile (\<lambda>c. \<not> is_digit c) t
      in if r = [] then None else Some (takeWhile is_digit r))"

function match_alterations :: "string \<Rightarrow> string list" where
  "match_alterations [] = []"
| "match_alterations (c # cs) =
     (if c \<in> set ''b#'' \<and> takeWhile is_digit cs \<noteq> []
      then (c # takeWhile is_digit cs) # match_alterations (dropWhile is_digit cs)
      else match_alterations cs)"
  by pat_completeness auto
termination
  by (relation "measure length") (auto simp: le_imp_less_Suc length_dropWhile_le)

definition addition_sign :: "string \<Rightarrow> string" where
  "addition_sign r = (if take 1 r = ''b'' \<or> take 1 r = ''#'' then take 1 r else [])"

function match_additions :: "string \<Rightarrow> string list" where
  "match_additions [] = []"
| "match_additions (c # cs) =
     (if take 3 (c # cs) = ''add''
         \<and> takeWhile is_digit (drop (length (addition_sign (drop 2 cs))) (drop 2 cs)) \<noteq> []
      then (''add'' @ addition_sign (drop 2 cs)
              @ takeWhile is_digit (drop (length (addition_sign (drop 2 cs))) (drop 2 cs)))
           # match_additions
               (dropWhile is_digit (drop (length (addition_sign (drop 2 cs))) (drop 2 cs)))
      else match_additions cs)"
  by pat_completeness auto
termination
proof (relation "measure length")
  show "wf (measure length)" by simp
next
  fix c :: char and cs :: string
  have "length (dropWhile is_digit (drop (length (addition_sign (drop 2 cs))) (drop 2 cs)))
          \<le> length cs"
    by (rule le_trans [OF length_dropWhile_le]) simp
  then show "(dropWhile is_digit (drop (length (addition_sign (drop 2 cs))) (drop 2 cs)), c # cs)
               \<in> measure length"
    by simp
next
  fix c :: char and cs :: string
  show "(cs, c # cs) \<in> measure length" by simp
qed

subsection \<open>\<open>idToChord\<close>\<close>

text \<open>
  The loop over the quality's table reads entry \<open>i + 1\<close> for \<open>i\<close> from \<open>0\<close> to
  the table's length, before it tests \<open>i + 1 \<le> \<lfloor>mainNumber / 2\<rfloor>\<close>. The last
  read, of entry 7, is past the end on every call and gives \<open>undefined\<close>;
  \<open>strToInterval\<close> receives it when the test holds there.
\<close>

fun table_loop ::
  "string list \<Rightarrow> bool \<Rightarrow> int \<Rightarrow> nat list \<Rightarrow> bool \<times> Interval list \<Rightarrow> error + bool \<times> Interval list"
where
  "table_loop table aug mainNumber [] acc = Inr acc"
| "table_loop table aug mainNumber (i # rest) acc =
     (let interval = js_nth table (int i + 1)
      in if int i + 1 \<le> mainNumber div 2
         then (if aug \<and> interval = Some ''P5''
               then (case Interval_strToInterval (Some ''A5'') of
                       Inl e \<Rightarrow> Inl e
                     | Inr v \<Rightarrow> table_loop table aug mainNumber rest (True, snd acc @ [v]))
               else (case Interval_strToInterval interval of
                       Inl e \<Rightarrow> Inl e
                     | Inr v \<Rightarrow> table_loop table aug mainNumber rest (fst acc, snd acc @ [v])))
         else table_loop table aug mainNumber rest acc)"

text \<open>
  The interval a tag such as \<open>b9\<close> or \<open>add#11\<close> stands for. The patterns give
  every tag a digit, so its number is never \<open>NaN\<close>.
\<close>

definition tag_interval :: "string \<Rightarrow> error + Interval" where
  "tag_interval tag =
     (case parseInt (filter is_digit tag) of
        None \<Rightarrow> Inl NumberIsNaN
      | Some n \<Rightarrow>
          Inr (Interval_new n
                 (int (length (filter (\<lambda>c. c = CHR ''#'') tag))
                  - int (length (filter (\<lambda>c. c = CHR ''b'') tag)))))"

fun apply_alterations :: "string list \<Rightarrow> string list \<Rightarrow> Interval list \<Rightarrow> error + Interval list" where
  "apply_alterations additions [] ivs = Inr ivs"
| "apply_alterations additions (alt # rest) ivs =
     (if (''add'' @ alt) \<notin> set additions
      then (case tag_interval alt of
              Inl e \<Rightarrow> Inl e
            | Inr v \<Rightarrow>
                apply_alterations additions rest
                  (filter (\<lambda>i. number i \<noteq> number v) ivs @ [v]))
      else apply_alterations additions rest ivs)"

definition parsed_quality :: "string \<Rightarrow> string" where
  "parsed_quality chordid = (case match_quality chordid of None \<Rightarrow> ''dom'' | Some t \<Rightarrow> drop 1 t)"

definition parsed_mainNumber :: "string \<Rightarrow> int option" where
  "parsed_mainNumber chordid = (case match_mainNumber chordid of None \<Rightarrow> Some 5 | Some t \<Rightarrow> parseInt t)"

definition Chord_idToChord :: "string \<Rightarrow> error + chord" where
  "Chord_idToChord chordid =
     (let base = match_base chordid;
          aug = contains_aug chordid;
          sus = (case match_sus chordid of None \<Rightarrow> [] | Some t \<Rightarrow> t);
          alterations = match_alterations chordid;
          additions = match_additions chordid
      in case MAINS (parsed_quality chordid) of
           None \<Rightarrow> Inl TypeError
         | Some table \<Rightarrow>
         (case parsed_mainNumber chordid of
           None \<Rightarrow> Inl NumberIsNaN
         | Some m \<Rightarrow>
             (case table_loop table aug m [0..<length table] (False, []) of
                Inl e \<Rightarrow> Inl e
              | Inr (existing5, ivs0) \<Rightarrow>
                  (case map_result (\<lambda>t. Interval_strToInterval (Some t))
                          ((if aug \<and> \<not> existing5 then [''A5''] else [])
                           @ (if sus \<noteq> [] then [''M'' @ drop 3 sus] else [])) of
                     Inl e \<Rightarrow> Inl e
                   | Inr ivs1 \<Rightarrow>
                       (case map_result tag_interval additions of
                          Inl e \<Rightarrow> Inl e
                        | Inr ivs2 \<Rightarrow>
                            (case apply_alterations additions alterations (ivs0 @ ivs1 @ ivs2) of
                               Inl e \<Rightarrow> Inl e
                             | Inr ivs \<Rightarrow>
                                 (case base of
                                    None \<Rightarrow> Inr (Chord_new ivs)
                                  | Some b \<Rightarrow>
                                      Inr (ChordWithBase_new
                                            \<lparr>letter = take 1 b, accidental = drop 1 b, octave = 4\<rparr>
                                            ivs))))))))"

section \<open>ChordWithBase: matching scales\<close>

text \<open>\<open>notes(base)\<close>: the base, then the base raised by each interval.\<close>

definition Chord_notes :: "chord \<Rightarrow> Note \<Rightarrow> error + Note list" where
  "Chord_notes c b =
     (case map_result (Note_add b) (intervals c) of
        Inl e \<Rightarrow> Inl e
      | Inr ns \<Rightarrow> Inr (b # ns))"

definition chord_pitch_classes :: "Note \<Rightarrow> Interval list \<Rightarrow> error + int list" where
  "chord_pitch_classes b ivs =
     (case Chord_notes (ChordWithBase b ivs) b of
        Inl e \<Rightarrow> Inl e
      | Inr ns \<Rightarrow> map_result pitch_class ns)"

definition scale_pitch_classes :: "string \<Rightarrow> string \<Rightarrow> error + int list" where
  "scale_pitch_classes note sc =
     (case Scale_notes (Scale_generateScale sc
             \<lparr>letter = take 1 note, accidental = drop 1 note, octave = 4\<rparr>) of
        Inl e \<Rightarrow> Inl e
      | Inr ns \<Rightarrow> map_result pitch_class ns)"

text \<open>
  The proportion is a quotient of two small counts; it is kept as a rational, which two
  such quotients share exactly when the computed numbers are equal. The result object
  is an association list from proportion to labels, keys in order of first use
  (the order in which the object's keys are enumerated is not modelled).
\<close>

definition proportion :: "int list \<Rightarrow> int list \<Rightarrow> rat" where
  "proportion chordNotes scaleNotes =
     of_nat (length (filter (\<lambda>n. n \<in> set scaleNotes) chordNotes)) / of_nat (length chordNotes)"

definition push_label :: "rat \<Rightarrow> string \<Rightarrow> (rat \<times> string list) list \<Rightarrow> (rat \<times> string list) list" where
  "push_label p l tbl =
     (case map_of tbl p of
        None \<Rightarrow> tbl @ [(p, [l])]
      | Some ls \<Rightarrow> map (\<lambda>e. if fst e = p then (fst e, snd e @ [l]) else e) tbl)"

definition scale_label :: "string \<times> string \<Rightarrow> string" where
  "scale_label ns = fst ns @ '' '' @ snd ns"

fun scales_loop ::
  "int list \<Rightarrow> (string \<times> string) list \<Rightarrow> (rat \<times> string list) list
     \<Rightarrow> error + (rat \<times> string list) list"
where
  "scales_loop chordNotes [] tbl = Inr tbl"
| "scales_loop chordNotes (ns # rest) tbl =
     (case scale_pitch_classes (fst ns) (snd ns) of
        Inl e \<Rightarrow> Inl e
      | Inr scaleNotes \<Rightarrow>
          scales_loop chordNotes rest
            (push_label (proportion chordNotes scaleNotes) (scale_label ns) tbl))"

definition ChordWithBase_findMatchingScales ::
  "Note \<Rightarrow> Interval list \<Rightarrow> error + (rat \<times> string list) list" where
  "ChordWithBase_findMatchingScales b ivs =
     (case chord_pitch_classes b ivs of
        Inl e \<Rightarrow> Inl e
      | Inr chordNotes \<Rightarrow> scales_loop chordNotes (List.product NOTES SCALES) [])"

text \<open>The labels filed under a proportion (\<open>scales[p]\<close>, empty when absent).\<close>

definition group_of :: "(rat \<times> string list) list \<Rightarrow> rat \<Rightarrow> string list" where
  "group_of tbl p = (case map_of tbl p of None \<Rightarrow> [] | Some ls \<Rightarrow> ls)"

section \<open>Reference notions and sample values\<close>

text \<open>
  A text "of the form letters, then digits", read from the specification's words: a
  non-empty run of the letters A to G (either case) followed by a non-empty run of
  digits, and nothing else.
\<close>

definition note_form :: "string \<Rightarrow> bool" where
  "note_form t =
     (takeWhile is_note_letter t \<noteq> [] \<and> dropWhile is_note_letter t \<noteq> []
      \<and> list_all is_digit (dropWhile is_note_letter t))"

text \<open>A text holds a letter directly followed by a digit somewhere.\<close>

fun letter_then_digit :: "string \<Rightarrow> bool" where
  "letter_then_digit (a # b # cs) = ((is_note_letter a \<and> is_digit b) \<or> letter_then_digit (b # cs))"
| "letter_then_digit cs = False"

definition C4 :: Note where
  "C4 = \<lparr>letter = ''C'', accidental = [], octave = 4\<rparr>"

definition B4 :: Note where
  "B4 = \<lparr>letter = ''B'', accidental = [], octave = 4\<rparr>"

text \<open>Intervals by their usual short names.\<close>

definition M2 :: Interval where "M2 = Interval_new 2 0"
definition m3 :: Interval where "m3 = Interval_new 3 (-1)"
definition M3 :: Interval where "M3 = Interval_new 3 0"
definition P4 :: Interval where "P4 = Interval_new 4 0"
definition P5 :: Interval where "P5 = Interval_new 5 0"
definition D5 :: Interval where "D5 = Interval_new 5 (-1)"
definition A5 :: Interval where "A5 = Interval_new 5 1"
definition m7 :: Interval where "m7 = Interval_new 7 (-1)"
definition m9 :: Interval where "m9 = Interval_new 9 (-1)"
definition M10 :: Interval where "M10 = Interval_new 10 0"

section \<open>Rendering numbers and intervals\<close>

lemma show_nat_nonempty: "show_nat n \<noteq> []"
  by (subst show_nat.simps) simp

lemma length_show_nat_one: "length (show_nat n) = 1 \<longleftrightarrow> n < 10"
proof (cases "n < 10")
  case True
  then show ?thesis by (subst show_nat.simps) simp
next
  case False
  with show_nat_nonempty [of "n div 10"] show ?thesis by (subst show_nat.simps) simp
qed

lemma show_int_one_char: "length (show_int n) = 1 \<Longrightarrow> 0 \<le> n \<and> n < 10"
  using show_nat_nonempty [of "nat (- n)"] length_show_nat_one [of "nat n"]
  by (auto simp: show_int_def split: if_splits)

lemma small_int_cases:
  "0 \<le> n \<Longrightarrow> n < 10 \<Longrightarrow> n \<in> {0, 1, 2, 3, 4, 5, 6, 7, 8, 9 :: int}"
  by (simp; presburger)

lemma show_int_small:
  "show_int 0 = ''0''" "show_int 1 = ''1''" "show_int 2 = ''2''" "show_int 3 = ''3''"
  "show_int 4 = ''4''" "show_int 5 = ''5''" "show_int 6 = ''6''" "show_int 7 = ''7''"
  "show_int 8 = ''8''" "show_int 9 = ''9''"
  by code_simp+

lemma ordinal_small:
  "Interval_ordinal 0 = ''th''" "Interval_ordinal 1 = ''st''" "Interval_ordinal 2 = ''nd''"
  "Interval_ordinal 3 = ''rd''" "Interval_ordinal 4 = ''th''" "Interval_ordinal 5 = ''th''"
  "Interval_ordinal 6 = ''th''" "Interval_ordinal 7 = ''th''" "Interval_ordinal 8 = ''th''"
  "Interval_ordinal 9 = ''th''"
  by code_simp+

lemma perfect_small:
  "\<not> perfect_class 0" "perfect_class 1" "\<not> perfect_class 2" "\<not> perfect_class 3"
  "perfect_class 4" "perfect_class 5" "\<not> perfect_class 6" "\<not> perfect_class 7"
  "perfect_class 8" "\<not> perfect_class 9"
  by code_simp+

lemma length_ordinal: "length (Interval_ordinal n) = 2"
  by (auto simp: Interval_ordinal_def js_nth_def nth_Cons' split: option.splits)

text \<open>An interval string of two characters names a degree below ten.\<close>

lemma toString_two_chars:
  assumes "Interval_toString i = [a, d]"
  shows "number i \<in> {0, 1, 2, 3, 4, 5, 6, 7, 8, 9}"
proof -
  from assms have "length (show_int (number i)) = 1"
    by (auto simp: Interval_toString_def Let_def split: if_splits)
  then show ?thesis using show_int_one_char small_int_cases by blast
qed

lemma toString_m3: "Interval_toString i = ''m3'' \<longleftrightarrow> number i = 3 \<and> quality i = -1"
proof
  assume h: "Interval_toString i = ''m3''"
  from toString_two_chars [OF h] h show "number i = 3 \<and> quality i = -1"
    by (auto simp: Interval_toString_def show_int_small perfect_small split: if_splits)
next
  assume "number i = 3 \<and> quality i = -1"
  then show "Interval_toString i = ''m3''"
    by (simp add: Interval_toString_def show_int_small perfect_small)
qed


lemma toString_D5: "Interval_toString i = ''D5'' \<longleftrightarrow> number i = 5 \<and> quality i = -1"
proof
  assume h: "Interval_toString i = ''D5''"
  from toString_two_chars [OF h] h show "number i = 5 \<and> quality i = -1"
    by (auto simp: Interval_toString_def show_int_small perfect_small split: if_splits)
next
  assume "number i = 5 \<and> quality i = -1"
  then show "Interval_toString i = ''D5''"
    by (simp add: Interval_toString_def show_int_small perfect_small)
qed

lemma toString_D7: "Interval_toString i = ''D7'' \<longleftrightarrow> number i = 7 \<and> quality i = -2"
proof
  assume h: "Interval_toString i = ''D7''"
  from toString_two_chars [OF h] h show "number i = 7 \<and> quality i = -2"
    by (auto simp: Interval_toString_def show_int_small perfect_small split: if_splits)
next
  assume "number i = 7 \<and> quality i = -2"
  then show "Interval_toString i = ''D7''"
    by (simp add: Interval_toString_def show_int_small perfect_small)
qed

lemma toString_M7:
  "Interval_toString i = ''M7'' \<longleftrightarrow> number i = 7 \<and> quality i \<notin> {1, -1, -2}"
proof
  assume h: "Interval_toString i = ''M7''"
  from toString_two_chars [OF h] h show "number i = 7 \<and> quality i \<notin> {1, -1, -2}"
    by (auto simp: Interval_toString_def show_int_small perfect_small split: if_splits)
next
  assume "number i = 7 \<and> quality i \<notin> {1, -1, -2}"
  then show "Interval_toString i = ''M7''"
    by (simp add: Interval_toString_def show_int_small perfect_small)
qed

lemma toString_M3:
  "Interval_toString i = ''M3'' \<longleftrightarrow> number i = 3 \<and> quality i \<notin> {1, -1, -2}"
proof
  assume h: "Interval_toString i = ''M3''"
  from toString_two_chars [OF h] h show "number i = 3 \<and> quality i \<notin> {1, -1, -2}"
    by (auto simp: Interval_toString_def show_int_small perfect_small split: if_splits)
next
  assume "number i = 3 \<and> quality i \<notin> {1, -1, -2}"
  then show "Interval_toString i = ''M3''"
    by (simp add: Interval_toString_def show_int_small perfect_small)
qed

lemma toString_M2:
  "Interval_toString i = ''M2'' \<longleftrightarrow> number i = 2 \<and> quality i \<notin> {1, -1, -2}"
proof
  assume h: "Interval_toString i = ''M2''"
  from toString_two_chars [OF h] h show "number i = 2 \<and> quality i \<notin> {1, -1, -2}"
    by (auto simp: Interval_toString_def show_int_small perfect_small split: if_splits)
next
  assume "number i = 2 \<and> quality i \<notin> {1, -1, -2}"
  then show "Interval_toString i = ''M2''"
    by (simp add: Interval_toString_def show_int_small perfect_small)
qed

lemma toString_P5:
  "Interval_toString i = ''P5'' \<longleftrightarrow> number i = 5 \<and> quality i \<notin> {1, -1}"
proof
  assume h: "Interval_toString i = ''P5''"
  from toString_two_chars [OF h] h show "number i = 5 \<and> quality i \<notin> {1, -1}"
    by (auto simp: Interval_toString_def show_int_small perfect_small split: if_splits)
next
  assume "number i = 5 \<and> quality i \<notin> {1, -1}"
  then show "Interval_toString i = ''P5''"
    by (simp add: Interval_toString_def show_int_small perfect_small)
qed

text \<open>No interval is written \<open>M4\<close>: the fourth is of the perfect class.\<close>

lemma toString_never_M4: "Interval_toString i \<noteq> ''M4''"
proof
  assume h: "Interval_toString i = ''M4''"
  from toString_two_chars [OF h] h show False
    by (auto simp: Interval_toString_def show_int_small perfect_small split: if_splits)
qed

text \<open>The full names of the same intervals.\<close>

lemma show_ordinal_three_chars:
  assumes "show_int n @ Interval_ordinal n = [a, b, c]"
  shows "n \<in> {0, 1, 2, 3, 4, 5, 6, 7, 8, 9}"
proof -
  have "length (show_int n @ Interval_ordinal n) = 3"
    using assms by simp
  then have "length (show_int n) = 1"
    by (simp add: length_ordinal)
  then show ?thesis using show_int_one_char small_int_cases by blast
qed

lemma name_minor_3rd: "Interval_name i = ''minor 3rd'' \<longleftrightarrow> number i = 3 \<and> quality i = -1"
proof
  assume h: "Interval_name i = ''minor 3rd''"
  then have "show_int (number i) @ Interval_ordinal (number i) = ''3rd''"
    by (auto simp: Interval_name_def split: if_splits)
  from show_ordinal_three_chars [OF this] this have n: "number i = 3"
    by (auto simp: show_int_small ordinal_small)
  with h show "number i = 3 \<and> quality i = -1"
    by (auto simp: Interval_name_def perfect_small split: if_splits)
next
  assume "number i = 3 \<and> quality i = -1"
  then show "Interval_name i = ''minor 3rd''"
    by (simp add: Interval_name_def show_int_small ordinal_small perfect_small)
qed

lemma name_diminished_5th:
  "Interval_name i = ''diminished 5th'' \<longleftrightarrow> number i = 5 \<and> quality i = -1"
proof
  assume h: "Interval_name i = ''diminished 5th''"
  then have "show_int (number i) @ Interval_ordinal (number i) = ''5th''"
    by (auto simp: Interval_name_def split: if_splits)
  from show_ordinal_three_chars [OF this] this have n: "number i = 5"
    by (auto simp: show_int_small ordinal_small)
  with h show "number i = 5 \<and> quality i = -1"
    by (auto simp: Interval_name_def perfect_small split: if_splits)
next
  assume "number i = 5 \<and> quality i = -1"
  then show "Interval_name i = ''diminished 5th''"
    by (simp add: Interval_name_def show_int_small ordinal_small perfect_small)
qed

lemma name_diminished_7th:
  "Interval_name i = ''diminished 7th'' \<longleftrightarrow> number i = 7 \<and> quality i = -2"
proof
  assume h: "Interval_name i = ''diminished 7th''"
  then have "show_int (number i) @ Interval_ordinal (number i) = ''7th''"
    by (auto simp: Interval_name_def split: if_splits)
  from show_ordinal_three_chars [OF this] this have n: "number i = 7"
    by (auto simp: show_int_small ordinal_small)
  with h show "number i = 7 \<and> quality i = -2"
    by (auto simp: Interval_name_def perfect_small split: if_splits)
next
  assume "number i = 7 \<and> quality i = -2"
  then show "Interval_name i = ''diminished 7th''"
    by (simp add: Interval_name_def show_int_small ordinal_small perfect_small)
qed

lemma name_major_7th:
  "Interval_name i = ''major 7th'' \<longleftrightarrow> number i = 7 \<and> quality i \<notin> {1, -1, -2}"
proof
  assume h: "Interval_name i = ''major 7th''"
  then have "show_int (number i) @ Interval_ordinal (number i) = ''7th''"
    by (auto simp: Interval_name_def split: if_splits)
  from show_ordinal_three_chars [OF this] this have n: "number i = 7"
    by (auto simp: show_int_small ordinal_small)
  with h show "number i = 7 \<and> quality i \<notin> {1, -1, -2}"
    by (auto simp: Interval_name_def perfect_small split: if_splits)
next
  assume "number i = 7 \<and> quality i \<notin> {1, -1, -2}"
  then show "Interval_name i = ''major 7th''"
    by (simp add: Interval_name_def show_int_small ordinal_small perfect_small)
qed

text \<open>An interval is present by name exactly when it is present by its short string.\<close>

lemma in_interval_strings:
  "t \<in> set (interval_strings c) \<longleftrightarrow> (\<exists>i \<in> set (intervals c). Interval_toString i = t)"
  by (auto simp: interval_strings_def)

lemma in_interval_names:
  "t \<in> Interval_name ` set ivs \<longleftrightarrow> (\<exists>i \<in> set ivs. Interval_name i = t)"
  by auto

lemma quality_by_names:
  "Chord_quality c =
     (if ''minor 3rd'' \<in> Interval_name ` set (intervals c)
         \<and> ''diminished 5th'' \<in> Interval_name ` set (intervals c)
         \<and> ''diminished 7th'' \<in> Interval_name ` set (intervals c) then ''dim''
      else if ''minor 3rd'' \<in> Interval_name ` set (intervals c) then ''min''
      else if ''major 7th'' \<in> Interval_name ` set (intervals c) then ''maj''
      else ''dom'')"
  unfolding Chord_quality_def in_interval_strings in_interval_names
    toString_m3 toString_D5 toString_D7 toString_M7
    name_minor_3rd name_diminished_5th name_diminished_7th name_major_7th
  by simp

lemma js_Number_toString: "js_Number (Interval_toString i) = None"
  by (auto simp: js_Number_def Interval_toString_def Let_def is_digit_def)

section \<open>Chord classification\<close>

text \<open>
  C2. \<open>quality()\<close> is "dim" when a minor 3rd, a diminished 5th and a diminished 7th
  are all among the chord's intervals; otherwise "min" when a minor 3rd is; otherwise
  "maj" when a major 7th is; otherwise "dom". Presence is read through the intervals'
  names (\<open>name()\<close>), while the code tests their short strings. The chord of a minor
  3rd, a perfect 5th and a minor 7th has quality "min", and its id rooted at C is
  \<open>C^min7\<close>.
\<close>

theorem C2_quality_classification:
  "Chord_quality c =
     (if ''minor 3rd'' \<in> Interval_name ` set (intervals c)
         \<and> ''diminished 5th'' \<in> Interval_name ` set (intervals c)
         \<and> ''diminished 7th'' \<in> Interval_name ` set (intervals c) then ''dim''
      else if ''minor 3rd'' \<in> Interval_name ` set (intervals c) then ''min''
      else if ''major 7th'' \<in> Interval_name ` set (intervals c) then ''maj''
      else ''dom'')
   \<and> Chord_quality (Chord_new [m3, P5, m7]) = ''min''
   \<and> Chord_id (Chord_new [m3, P5, m7]) (Some C4) = ''C^min7''
   \<and> ChordWithBase_id (ChordWithBase_new C4 [m3, P5, m7]) = ''C^min7''"
proof -
  have "Chord_quality (Chord_new [m3, P5, m7]) = ''min''"
    by code_simp
  moreover have "Chord_id (Chord_new [m3, P5, m7]) (Some C4) = ''C^min7''"
    by code_simp
  moreover have "ChordWithBase_id (ChordWithBase_new C4 [m3, P5, m7]) = ''C^min7''"
    by code_simp
  ultimately show ?thesis
    using quality_by_names [of c] by simp
qed

text \<open>
  C4. \<open>structure()\<close> should name the highest odd degree of the chord. The code
  filters the interval objects with \<open>i % 2\<close>, which is \<open>NaN\<close> for every interval,
  so nothing passes the filter: apart from the lone perfect 5th ("power") the result is
  always the empty string. The major triad is not classified as "triad".
\<close>

theorem C4_structure_classifies_nothing:
  "Chord_structure c =
     (if map Interval_toString (intervals c) = [''P5''] then ''power'' else [])
   \<and> Chord_structure (Chord_new [M3, P5]) = []
   \<and> Chord_structure (Chord_new [P5]) = ''power''"
proof -
  have "filter truthy_mod2 (intervals c) = []"
    by (simp add: truthy_mod2_def js_Number_toString)
  moreover have "(length (intervals c) = 1 \<and> map Interval_toString (take 1 (intervals c)) = [''P5''])
      \<longleftrightarrow> map Interval_toString (intervals c) = [''P5'']"
    by (cases "intervals c") auto
  ultimately have "Chord_structure c =
     (if map Interval_toString (intervals c) = [''P5''] then ''power'' else [])"
    by (simp add: Chord_structure_def Math_max_def)
  moreover have "Chord_structure (Chord_new [M3, P5]) = []"
    by code_simp
  moreover have "Chord_structure (Chord_new [P5]) = ''power''"
    by code_simp
  ultimately show ?thesis by simp
qed

text \<open>
  C8. \<open>sus()\<close> tests for the string \<open>M4\<close>, which no interval is written as: the
  4th that \<open>strToInterval("M4")\<close> builds is written \<open>P4\<close>. So "sus4" is never
  returned, and the chord of a 4th and a 5th gets the empty string.
\<close>

theorem C8_sus4_never_returned:
  "Chord_sus c \<noteq> ''sus4''
   \<and> Interval_strToInterval (Some ''M4'') = Inr P4
   \<and> Interval_toString P4 = ''P4''
   \<and> Chord_sus (Chord_new [P4, P5]) = []
   \<and> Chord_sus (Chord_new [M2, P5]) = ''sus2''"
proof -
  have "Chord_sus c \<noteq> ''sus4''"
    by (simp add: Chord_sus_def in_interval_strings toString_never_M4)
  moreover have "Interval_strToInterval (Some ''M4'') = Inr P4"
    by code_simp
  moreover have "Interval_toString P4 = ''P4''"
    by code_simp
  moreover have "Chord_sus (Chord_new [P4, P5]) = []"
    by code_simp
  moreover have "Chord_sus (Chord_new [M2, P5]) = ''sus2''"
    by code_simp
  ultimately show ?thesis by simp
qed

section \<open>Scales\<close>

text \<open>
  C3 (as the code has it). A name that is not one of the seven recognized templates
  takes the \<open>default\<close> branch, which returns \<open>new Scale(base)\<close>: a scale with no
  interval, whose only note is the base. No exception is thrown.
\<close>

theorem C3_unknown_name_gives_base_only:
  assumes "name \<notin> set SCALES"
  shows "Scale_generateScale name b = Scale b []
         \<and> Scale_notes (Scale_generateScale name b) = Inr [b]"
proof -
  from assms have "Scale_generateScale name b = Scale b []"
    by (simp add: SCALES_def Scale_generateScale_def Scale_new_def sort_intervals_def)
  then show ?thesis
    by (simp add: Scale_notes_def)
qed

theorem C3_unknown_name_witness:
  "''lydian'' \<notin> set SCALES
   \<and> Scale_generateScale ''lydian'' C4 = Scale C4 []
   \<and> Scale_notes (Scale_generateScale ''lydian'' C4) = Inr [C4]"
proof -
  have h: "''lydian'' \<notin> set SCALES"
    by (simp add: SCALES_def)
  from C3_unknown_name_gives_base_only [OF h, of C4] h show ?thesis
    by blast
qed

text \<open>
  The claim as stated fails: for the unrecognized name "lydian" the result is not the
  major scale on C4, which has six intervals and seven notes.
\<close>

theorem C3_not_major_counterexample:
  "''lydian'' \<notin> set SCALES
   \<and> scale_intervals (Scale_generateScale ''lydian'' C4) = []
   \<and> length (scale_intervals (Scale_generateScale ''major'' C4)) = 6
   \<and> Scale_generateScale ''lydian'' C4 \<noteq> Scale_generateScale ''major'' C4"
  by code_simp

text \<open>
  C7. The natural minor scale is the major template with the qualities of degrees 3, 6
  and 7 lowered to \<open>-1\<close>; on C4 its notes are C, D, Eb, F, G, Ab, Bb, with pitch
  classes 0, 2, 3, 5, 7, 8, 10.
\<close>

theorem C7_natural_minor:
  "scale_intervals (Scale_generateScale ''natural minor'' b) =
     map (\<lambda>i. if number i \<in> {3, 6, 7} then i\<lparr>quality := -1\<rparr> else i)
       (scale_intervals (Scale_generateScale ''major'' b))
   \<and> map number (scale_intervals (Scale_generateScale ''major'' b)) = [2, 3, 4, 5, 6, 7]
   \<and> map_sum id (map Note_toString) (Scale_notes (Scale_generateScale ''natural minor'' C4))
       = Inr [''C4'', ''D4'', ''Eb4'', ''F4'', ''G4'', ''Ab4'', ''Bb4'']
   \<and> scale_pitch_classes ''C'' ''natural minor'' = Inr [0, 2, 3, 5, 7, 8, 10]
   \<and> set [0, 2, 3, 5, 7, 8, 10] = {0, 2, 3, 5, 7, 8, 10 :: int}"
proof -
  have t: "major_template =
      [Interval_new 2 0, Interval_new 3 0, Interval_new 4 0, Interval_new 5 0,
       Interval_new 6 0, Interval_new 7 0]"
    by code_simp
  have "scale_intervals (Scale_generateScale ''natural minor'' b) =
     map (\<lambda>i. if number i \<in> {3, 6, 7} then i\<lparr>quality := -1\<rparr> else i)
       (scale_intervals (Scale_generateScale ''major'' b))"
    by (simp add: Scale_generateScale_def t flatten_at_def Interval_new_def)
  moreover have "map number (scale_intervals (Scale_generateScale ''major'' b)) = [2, 3, 4, 5, 6, 7]"
    by (simp add: Scale_generateScale_def t Interval_new_def)
  moreover have "map_sum id (map Note_toString) (Scale_notes (Scale_generateScale ''natural minor'' C4))
       = Inr [''C4'', ''D4'', ''Eb4'', ''F4'', ''G4'', ''Ab4'', ''Bb4'']"
    by code_simp
  moreover have "scale_pitch_classes ''C'' ''natural minor'' = Inr [0, 2, 3, 5, 7, 8, 10]"
    by code_simp
  ultimately show ?thesis by simp
qed

section \<open>Notes and intervals\<close>

text \<open>
  C5. Adding an interval to a note and subtracting the note again should give the
  interval back. When the letter wraps past B the code's \<open>(selfIndex - otherIndex) % 7\<close>
  is negative: B4 plus a major 2nd is C#5, and C#5 minus B4 has number \<open>-5\<close> and a
  \<open>NaN\<close> quality instead of number 2.
\<close>

theorem C5_add_then_subtract_at_B4:
  "Note_add B4 M2 = Inr \<lparr>letter = ''C'', accidental = ''#'', octave = 5\<rparr>
   \<and> Note_subtract \<lparr>letter = ''C'', accidental = ''#'', octave = 5\<rparr> B4 = Inr (-5, None)
   \<and> number M2 = 2 \<and> Interval_toSemitones M2 = Some 2"
  by code_simp

section \<open>The identifier codec\<close>

text \<open>
  Where the round trip does hold: every chord made of the first entries of the minor,
  dominant or major table (after the unison) gets its id back, without a base.
\<close>

lemma canonical_prefix_round_trip:
  "list_all (\<lambda>q. list_all (\<lambda>k.
      case map_result (\<lambda>t. Interval_strToInterval (Some t))
             (take k (drop 1 (case MAINS q of None \<Rightarrow> [] | Some m \<Rightarrow> m))) of
        Inl e \<Rightarrow> False
      | Inr ivs \<Rightarrow>
          (case Chord_idToChord (Chord_id (Chord_new ivs) None) of
             Inl e \<Rightarrow> False
           | Inr c \<Rightarrow> Chord_id c None = Chord_id (Chord_new ivs) None))
      [0..<7]) [''min'', ''dom'', ''maj'']"
  by code_simp

text \<open>
  C1. Decoding a chord's id and encoding it again should give the same id. It does not
  for the diminished triad, made of table degrees alone: its quality is "min" (there is
  no diminished 7th), so the diminished 5th is an alteration, and the encoder writes an
  alteration as the interval's own string (\<open>D5\<close>, not \<open>b5\<close>), which the decoder
  reads as the main number 5; the id \<open>^minD5\<close> comes back as \<open>^min\<close>. In the
  same way the dominant 7th with a minor 9th, \<open>^7m9\<close>, comes back as \<open>^7\<close>, and
  the sus2 chord \<open>C^sus2\<close> as \<open>C^3M2\<close>; the id of an augmented triad makes the
  decoder throw.
\<close>

theorem C1_round_trip_fails:
  "Chord_id (Chord_new [m3, D5]) None = ''^minD5''
   \<and> Chord_idToChord ''^minD5'' = Inr (Chord_new [m3, P5])
   \<and> Chord_id (Chord_new [m3, P5]) None = ''^min''
   \<and> Chord_id (Chord_new [M3, P5, m7, m9]) None = ''^7m9''
   \<and> Chord_idToChord ''^7m9'' = Inr (Chord_new [M3, P5, m7])
   \<and> Chord_id (Chord_new [M3, P5, m7]) None = ''^7''
   \<and> Chord_id (Chord_new [M2, P5]) (Some C4) = ''C^sus2''
   \<and> Chord_idToChord ''C^sus2'' = Inr (ChordWithBase_new C4 [M2, M3])
   \<and> Chord_id (ChordWithBase_new C4 [M2, M3]) (Some C4) = ''C^3M2''
   \<and> Chord_id (Chord_new [M3, A5]) None = ''^aug3A5''
   \<and> Chord_idToChord ''^aug3A5'' = Inl TypeError"
  by code_simp

section \<open>Parsing a note\<close>

lemma digit_not_letter: "is_digit c \<Longrightarrow> \<not> is_note_letter c"
  by (auto simp: is_digit_def is_note_letter_def)

lemma parseInt_digits:
  assumes "ds \<noteq> []" and "list_all is_digit ds"
  shows "parseInt ds = Some (int (digits_val ds))"
proof -
  from assms obtain d rest where ds: "ds = d # rest" and d: "is_digit d"
    by (cases ds) auto
  from d have "d \<noteq> CHR ''-''" and "d \<noteq> CHR ''+''" and "\<not> is_space d"
    by (auto simp: is_digit_def is_space_def)
  moreover from assms(2) have "takeWhile is_digit ds = ds"
    by (simp add: list_all_iff)
  ultimately show ?thesis
    using ds by (simp add: parseInt_def)
qed

lemma match_here_adjacent:
  "takeWhile is_note_letter xs \<noteq> [] \<Longrightarrow>
   takeWhile is_digit (dropWhile is_note_letter xs) \<noteq> [] \<Longrightarrow> letter_then_digit xs"
proof (induction xs rule: letter_then_digit.induct)
  case (1 a b cs)
  then show ?case
    by (cases "is_note_letter b") (auto split: if_splits)
qed (auto split: if_splits)

lemma adjacent_head_matches:
  assumes "is_note_letter a" and "is_digit b"
  shows "takeWhile is_note_letter (a # b # cs) \<noteq> []
         \<and> takeWhile is_digit (dropWhile is_note_letter (a # b # cs)) \<noteq> []"
  using assms digit_not_letter [of b] by simp

lemma match_note_None: "match_note t = None \<longleftrightarrow> \<not> letter_then_digit t"
proof (induction t rule: letter_then_digit.induct)
  case (1 a b cs)
  show ?case
  proof (cases "takeWhile is_note_letter (a # b # cs) \<noteq> []
         \<and> takeWhile is_digit (dropWhile is_note_letter (a # b # cs)) \<noteq> []")
    case True
    then have "letter_then_digit (a # b # cs)"
      using match_here_adjacent by blast
    with True show ?thesis by (simp del: letter_then_digit.simps takeWhile.simps dropWhile.simps)
  next
    case False
    then have "\<not> (is_note_letter a \<and> is_digit b)"
      using adjacent_head_matches by blast
    with False 1 show ?thesis by (auto simp del: takeWhile.simps dropWhile.simps)
  qed
qed (simp_all split: if_splits)

lemma match_note_digits:
  "match_note t = Some (ls, ds) \<Longrightarrow> ds \<noteq> [] \<and> list_all is_digit ds"
proof (induction t)
  case Nil
  then show ?case by simp
next
  case (Cons c cs)
  then show ?case
    by (auto simp: list_all_iff simp del: takeWhile.simps dropWhile.simps
        split: if_splits dest: set_takeWhileD)
qed

lemma strToNote_None: "Note_strToNote t = None \<longleftrightarrow> \<not> letter_then_digit t"
proof (cases "match_note t")
  case None
  then show ?thesis using match_note_None [of t] by (simp add: Note_strToNote_def)
next
  case (Some p)
  obtain ls ds where p: "p = (ls, ds)" by (cases p)
  from Some p match_note_digits have "ds \<noteq> []" "list_all is_digit ds" by blast+
  then have "parseInt ds = Some (int (digits_val ds))" by (rule parseInt_digits)
  with Some p match_note_None [of t] show ?thesis by (simp add: Note_strToNote_def)
qed

text \<open>
  A text that is letters, then digits, is matched from its start. The octave is the
  number the digits denote, which the source holds exactly below \<open>2^53\<close>.
\<close>

lemma strToNote_form:
  assumes "note_form t" and "digits_val (dropWhile is_note_letter t) < 2 ^ 53"
  shows "Note_strToNote t =
           Some \<lparr>letter = take 1 t, accidental = drop 1 (takeWhile is_note_letter t),
                 octave = int (digits_val (dropWhile is_note_letter t))\<rparr>"
proof -
  from assms(1) have l: "takeWhile is_note_letter t \<noteq> []"
    and d: "dropWhile is_note_letter t \<noteq> []"
    and a: "list_all is_digit (dropWhile is_note_letter t)"
    by (simp_all add: note_form_def)
  from l obtain c cs where t: "t = c # cs" and c: "is_note_letter c"
    by (cases t) (auto split: if_splits)
  from a have tw: "takeWhile is_digit (dropWhile is_note_letter t) = dropWhile is_note_letter t"
    by (simp add: list_all_iff)
  from d tw have nd: "takeWhile is_digit (dropWhile is_note_letter t) \<noteq> []"
    by metis
  have "match_note (c # cs) =
          Some (takeWhile is_note_letter (c # cs),
                takeWhile is_digit (dropWhile is_note_letter (c # cs)))"
    using l nd unfolding t by (simp only: match_note.simps(2) simp_thms if_True)
  with tw have m: "match_note t = Some (takeWhile is_note_letter t, dropWhile is_note_letter t)"
    unfolding t by simp
  have "take 1 (takeWhile is_note_letter t) = take 1 t"
    using c t by simp
  with m parseInt_digits [OF d a] show ?thesis
    by (simp add: Note_strToNote_def)
qed

text \<open>
  C9 (as the code has it). The pattern of \<open>strToNote\<close> is not anchored: the result
  is \<open>null\<close> exactly for the texts that hold no letter A to G (either case)
  directly followed by a digit. For every text that is a run of such letters followed
  by a run of digits and nothing else, the digits denoting a number below \<open>2^53\<close>,
  the result is the note with the first letter as its letter, the remaining letters as
  accidental and that number as octave.
\<close>

theorem C9_strToNote_null_iff_no_match:
  "(Note_strToNote t = None \<longleftrightarrow> \<not> letter_then_digit t)
   \<and> (note_form t \<and> digits_val (dropWhile is_note_letter t) < 2 ^ 53 \<longrightarrow>
        Note_strToNote t =
           Some \<lparr>letter = take 1 t, accidental = drop 1 (takeWhile is_note_letter t),
                 octave = int (digits_val (dropWhile is_note_letter t))\<rparr>)"
  using strToNote_None strToNote_form by blast

theorem C9_strToNote_witness:
  "note_form ''Bb4'' \<and> digits_val (dropWhile is_note_letter ''Bb4'') < 2 ^ 53
   \<and> letter_then_digit ''Bb4''
   \<and> Note_strToNote ''Bb4'' = Some \<lparr>letter = ''B'', accidental = ''b'', octave = 4\<rparr>
   \<and> \<not> letter_then_digit ''C#4'' \<and> Note_strToNote ''C#4'' = None"
proof -
  have f: "note_form ''Bb4''" by code_simp
  have v: "take 1 ''Bb4'' = ''B''" "drop 1 (takeWhile is_note_letter ''Bb4'') = ''b''"
    "digits_val (dropWhile is_note_letter ''Bb4'') = 4"
    by code_simp+
  have l: "letter_then_digit ''Bb4''" "\<not> letter_then_digit ''C#4''" by code_simp+
  from C9_strToNote_null_iff_no_match [of "''Bb4''"]
    C9_strToNote_null_iff_no_match [of "''C#4''"] f v l
  show ?thesis by simp
qed

text \<open>
  The claim as stated fails: \<open>xA4\<close> is not of the form letters-then-digits, yet
  \<open>strToNote\<close> returns the note A4 for it.
\<close>

theorem C9_unanchored_counterexample:
  "\<not> note_form ''xA4''
   \<and> Note_strToNote ''xA4'' = Some \<lparr>letter = ''A'', accidental = [], octave = 4\<rparr>"
  by code_simp

section \<open>Where \<open>idToChord\<close> returns\<close>

lemma match_mainNumber_digits:
  assumes "match_mainNumber t = Some d"
  shows "d \<noteq> [] \<and> list_all is_digit d"
proof -
  let ?r = "dropWhile (\<lambda>c. \<not> is_digit c) t"
  from assms have r: "?r \<noteq> []" and d: "d = takeWhile is_digit ?r"
    by (auto simp: match_mainNumber_def Let_def split: if_splits)
  from r have "is_digit (hd ?r)"
    using hd_dropWhile [of "\<lambda>c. \<not> is_digit c" t] by simp
  with r have "takeWhile is_digit ?r \<noteq> []"
    by (cases ?r) auto
  with d show ?thesis
    by (auto simp: list_all_iff dest: set_takeWhileD)
qed

lemma parsed_mainNumber_defined: "\<exists>m. parsed_mainNumber t = Some m \<and> 0 \<le> m"
proof (cases "match_mainNumber t")
  case None
  then show ?thesis by (simp add: parsed_mainNumber_def)
next
  case (Some d)
  with match_mainNumber_digits have "d \<noteq> []" "list_all is_digit d" by blast+
  then have "parseInt d = Some (int (digits_val d))" by (rule parseInt_digits)
  with Some show ?thesis by (simp add: parsed_mainNumber_def)
qed

lemma match_quality_range:
  "match_quality t = Some q \<Longrightarrow> q \<in> set [''^min'', ''^maj'', ''^aug'', ''^dim'', ''^dom'']"
  by (induction t) (auto simp del: take_Cons_numeral split: if_splits)

lemma MAINS_parsed_quality:
  "MAINS (parsed_quality t) = None \<longleftrightarrow> match_quality t = Some ''^aug''"
proof (cases "match_quality t")
  case None
  then show ?thesis by (simp add: parsed_quality_def MAINS_def)
next
  case (Some q)
  from match_quality_range [OF this] Some show ?thesis
    by (auto simp: parsed_quality_def MAINS_def)
qed

lemma MAINS_range: "MAINS q = Some table \<Longrightarrow> table \<in> set MAINS_tables"
  by (auto simp: MAINS_def MAINS_tables_def split: if_splits)

text \<open>Entries 1 to 6 of every table are read as intervals.\<close>

lemma tables_readable:
  "list_all (\<lambda>table. list_all (\<lambda>i. \<not> isl (Interval_strToInterval (js_nth table (int i + 1))))
      [0..<6] \<and> length table = 7 \<and> js_nth table 7 = None) MAINS_tables"
  by code_simp

lemma table_loop_total:
  assumes "\<forall>i \<in> set idxs. int i + 1 \<le> m div 2 \<longrightarrow>
             \<not> isl (Interval_strToInterval (js_nth table (int i + 1)))"
  shows "\<exists>r. table_loop table aug m idxs acc = Inr r"
  using assms
proof (induction idxs arbitrary: acc)
  case Nil
  then show ?case by simp
next
  case (Cons i rest)
  have a5: "Interval_strToInterval (Some ''A5'') = Inr A5"
    by code_simp
  show ?case
  proof (cases "int i + 1 \<le> m div 2")
    case False
    with Cons show ?thesis by (simp add: Let_def)
  next
    case True
    with Cons.prems obtain v where "Interval_strToInterval (js_nth table (int i + 1)) = Inr v"
      by (cases "Interval_strToInterval (js_nth table (int i + 1))") auto
    with True a5 Cons show ?thesis by (cases aug) (auto simp: Let_def)
  qed
qed

text \<open>
  When every entry the loop can hand over is either read as an interval or
  \<open>undefined\<close>, and one that it does hand over is \<open>undefined\<close>, the loop throws.
\<close>

lemma table_loop_throws:
  assumes "\<forall>j \<in> set idxs. js_nth table (int j + 1) = None
             \<or> \<not> isl (Interval_strToInterval (js_nth table (int j + 1)))"
    and "i \<in> set idxs" and "int i + 1 \<le> m div 2" and "js_nth table (int i + 1) = None"
  shows "table_loop table aug m idxs acc = Inl TypeError"
  using assms(1,2)
proof (induction idxs arbitrary: acc)
  case Nil
  then show ?case by simp
next
  case (Cons j rest)
  have none: "Interval_strToInterval None = Inl TypeError"
    by (simp add: Interval_strToInterval_def)
  have a5: "Interval_strToInterval (Some ''A5'') = Inr A5"
    by code_simp
  show ?case
  proof (cases "js_nth table (int j + 1) = None")
    case True
    show ?thesis
    proof (cases "int j + 1 \<le> m div 2")
      case True
      with \<open>js_nth table (int j + 1) = None\<close> none show ?thesis
        by (simp add: Let_def)
    next
      case False
      with assms(3) have "j \<noteq> i" by auto
      with Cons.prems have "i \<in> set rest" by simp
      moreover from Cons.prems have "\<forall>j \<in> set rest. js_nth table (int j + 1) = None
             \<or> \<not> isl (Interval_strToInterval (js_nth table (int j + 1)))"
        by simp
      ultimately have "\<And>acc. table_loop table aug m rest acc = Inl TypeError"
        using Cons.IH by blast
      with False show ?thesis by (simp add: Let_def)
    qed
  next
    case False
    with assms(4) have "j \<noteq> i" by auto
    with Cons.prems have "i \<in> set rest" by simp
    moreover from Cons.prems have "\<forall>j \<in> set rest. js_nth table (int j + 1) = None
             \<or> \<not> isl (Interval_strToInterval (js_nth table (int j + 1)))"
      by simp
    ultimately have rest: "\<And>acc. table_loop table aug m rest acc = Inl TypeError"
      using Cons.IH by blast
    from False Cons.prems(1) have "\<not> isl (Interval_strToInterval (js_nth table (int j + 1)))"
      by auto
    then obtain v where "Interval_strToInterval (js_nth table (int j + 1)) = Inr v"
      by (cases "Interval_strToInterval (js_nth table (int j + 1))") auto
    with rest a5 show ?thesis by (cases aug) (simp_all add: Let_def)
  qed
qed

lemma map_result_total:
  "(\<And>x. x \<in> set xs \<Longrightarrow> \<exists>y. f x = Inr y) \<Longrightarrow> \<exists>ys. map_result f xs = Inr ys"
proof (induction xs)
  case Nil
  then show ?case by simp
next
  case (Cons x xs)
  then obtain y ys where "f x = Inr y" "map_result f xs = Inr ys"
    by (metis list.set_intros(1,2))
  then show ?case by simp
qed

lemma tag_interval_total:
  "filter is_digit tag \<noteq> [] \<Longrightarrow> \<exists>v. tag_interval tag = Inr v"
  using parseInt_digits [of "filter is_digit tag"]
  by (simp add: tag_interval_def list_all_iff)

lemma filter_takeWhile_digit: "filter is_digit (takeWhile is_digit xs) = takeWhile is_digit xs"
  by (induction xs) auto

lemma match_alterations_tags:
  "a \<in> set (match_alterations t) \<Longrightarrow> filter is_digit a \<noteq> []"
proof (induction t rule: match_alterations.induct)
  case 1
  then show ?case by simp
next
  case (2 c cs)
  show ?case
  proof (cases "c \<in> set ''b#'' \<and> takeWhile is_digit cs \<noteq> []")
    case True
    with "2.prems" have "a = c # takeWhile is_digit cs \<or> a \<in> set (match_alterations (dropWhile is_digit cs))"
      by simp
    then show ?thesis
    proof
      assume "a = c # takeWhile is_digit cs"
      with True show ?thesis
        by (simp add: filter_takeWhile_digit)
    next
      assume "a \<in> set (match_alterations (dropWhile is_digit cs))"
      with True "2.IH"(1) show ?thesis by blast
    qed
  next
    case False
    with "2.prems" have "a \<in> set (match_alterations cs)" by auto
    with False "2.IH"(2) show ?thesis by blast
  qed
qed

lemma match_additions_tags:
  "a \<in> set (match_additions t) \<Longrightarrow> filter is_digit a \<noteq> []"
proof (induction t rule: match_additions.induct)
  case 1
  then show ?case by simp
next
  case (2 c cs)
  let ?r = "drop (length (addition_sign (drop 2 cs))) (drop 2 cs)"
  show ?case
  proof (cases "take 3 (c # cs) = ''add'' \<and> takeWhile is_digit ?r \<noteq> []")
    case True
    with "2.prems" have "a = ''add'' @ addition_sign (drop 2 cs) @ takeWhile is_digit ?r
        \<or> a \<in> set (match_additions (dropWhile is_digit ?r))"
      by (simp del: take_Cons_numeral)
    then show ?thesis
    proof
      assume "a = ''add'' @ addition_sign (drop 2 cs) @ takeWhile is_digit ?r"
      with True show ?thesis
        by (simp add: filter_takeWhile_digit)
    next
      assume "a \<in> set (match_additions (dropWhile is_digit ?r))"
      with True "2.IH"(1) show ?thesis by blast
    qed
  next
    case False
    with "2.prems" have "a \<in> set (match_additions cs)" by (auto simp del: take_Cons_numeral)
    with False "2.IH"(2) show ?thesis by blast
  qed
qed

lemma apply_alterations_total:
  "(\<And>a. a \<in> set alts \<Longrightarrow> filter is_digit a \<noteq> []) \<Longrightarrow>
   \<exists>r. apply_alterations adds alts ivs = Inr r"
proof (induction alts arbitrary: ivs)
  case Nil
  then show ?case by simp
next
  case (Cons alt rest)
  then obtain v where "tag_interval alt = Inr v"
    using tag_interval_total [of alt] by auto
  with Cons show ?case by auto
qed

lemma match_sus_form:
  "match_sus t = Some u \<Longrightarrow> \<exists>ds. u = ''sus'' @ ds \<and> ds \<noteq> [] \<and> list_all is_digit ds"
proof (induction t)
  case Nil
  then show ?case by simp
next
  case (Cons c cs)
  then show ?case
    by (auto simp: list_all_iff simp del: take_Cons_numeral drop_Cons_numeral
        split: if_splits dest: set_takeWhileD)
qed

lemma sus_interval_total:
  assumes "match_sus t = Some u"
  shows "\<exists>v. Interval_strToInterval (Some (''M'' @ drop 3 u)) = Inr v"
proof -
  from match_sus_form [OF assms] obtain ds where "u = ''sus'' @ ds" "ds \<noteq> []" "list_all is_digit ds"
    by blast
  then show ?thesis
    using parseInt_digits [of ds] by (simp add: Interval_strToInterval_def)
qed

lemma A5_interval: "Interval_strToInterval (Some ''A5'') = Inr A5"
  by code_simp

lemma extras_total:
  "\<exists>r. map_result (\<lambda>t. Interval_strToInterval (Some t))
          ((if aug \<and> \<not> existing5 then [''A5''] else [])
           @ (if (case match_sus chordid of None \<Rightarrow> [] | Some t \<Rightarrow> t) \<noteq> []
              then [''M'' @ drop 3 (case match_sus chordid of None \<Rightarrow> [] | Some t \<Rightarrow> t)] else [])) = Inr r"
proof (rule map_result_total)
  fix x
  assume "x \<in> set ((if aug \<and> \<not> existing5 then [''A5''] else [])
           @ (if (case match_sus chordid of None \<Rightarrow> [] | Some t \<Rightarrow> t) \<noteq> []
              then [''M'' @ drop 3 (case match_sus chordid of None \<Rightarrow> [] | Some t \<Rightarrow> t)] else []))"
  then consider "x = ''A5''"
    | u where "match_sus chordid = Some u" "x = ''M'' @ drop 3 u"
    by (auto split: if_splits option.splits)
  then show "\<exists>y. Interval_strToInterval (Some x) = Inr y"
  proof cases
    case 1
    then show ?thesis using A5_interval by simp
  next
    case 2
    then show ?thesis using sus_interval_total by simp
  qed
qed

text \<open>
  With a quality that has a table and a main number of at most 13, every step of
  \<open>idToChord\<close> goes through and a chord is returned.
\<close>

lemma idToChord_total:
  assumes q: "match_quality chordid \<noteq> Some ''^aug''"
    and m: "parsed_mainNumber chordid = Some n" and n: "n \<le> 13"
  shows "\<exists>c. Chord_idToChord chordid = Inr c"
proof -
  from q obtain table where table: "MAINS (parsed_quality chordid) = Some table"
    using MAINS_parsed_quality [of chordid] by (cases "MAINS (parsed_quality chordid)") auto
  from MAINS_range [OF table] tables_readable
  have len: "length table = 7"
    and ok: "\<forall>i \<in> set [0..<6]. \<not> isl (Interval_strToInterval (js_nth table (int i + 1)))"
    by (auto simp: list_all_iff)
  have "\<forall>i \<in> set [0..<7]. int i + 1 \<le> n div 2 \<longrightarrow>
          \<not> isl (Interval_strToInterval (js_nth table (int i + 1)))"
  proof (intro ballI impI)
    fix i assume "i \<in> set [0..<7]" and "int i + 1 \<le> n div 2"
    with n have "i \<in> set [0..<6]" by auto
    with ok show "\<not> isl (Interval_strToInterval (js_nth table (int i + 1)))" by blast
  qed
  from table_loop_total [OF this] obtain e5 ivs0
    where loop: "table_loop table (contains_aug chordid) n [0..<7] (False, []) = Inr (e5, ivs0)"
    by fastforce
  from extras_total obtain ivs1 where
    ex: "map_result (\<lambda>t. Interval_strToInterval (Some t))
          ((if contains_aug chordid \<and> \<not> e5 then [''A5''] else [])
           @ (if (case match_sus chordid of None \<Rightarrow> [] | Some t \<Rightarrow> t) \<noteq> []
              then [''M'' @ drop 3 (case match_sus chordid of None \<Rightarrow> [] | Some t \<Rightarrow> t)] else [])) = Inr ivs1"
    by blast
  from map_result_total [of "match_additions chordid" tag_interval]
  obtain ivs2 where adds: "map_result tag_interval (match_additions chordid) = Inr ivs2"
    using match_additions_tags tag_interval_total by blast
  from apply_alterations_total [of "match_alterations chordid"]
  obtain ivs where alts: "apply_alterations (match_additions chordid) (match_alterations chordid)
      (ivs0 @ ivs1 @ ivs2) = Inr ivs"
    using match_alterations_tags by blast
  show ?thesis
    unfolding Chord_idToChord_def Let_def
    by (simp add: table m len loop ex adds alts split: option.splits)
qed

text \<open>
  With a main number of 14 or more the call throws: either the quality has no table,
  or the loop hands entry 7 of the table to \<open>strToInterval\<close>.
\<close>

lemma idToChord_throws:
  assumes m: "parsed_mainNumber chordid = Some n" and n: "14 \<le> n"
  shows "Chord_idToChord chordid = Inl TypeError"
proof (cases "MAINS (parsed_quality chordid)")
  case None
  then show ?thesis by (simp add: Chord_idToChord_def)
next
  case (Some table)
  from MAINS_range [OF Some] tables_readable
  have len: "length table = 7" and past: "js_nth table 7 = None"
    and ok: "\<forall>i \<in> set [0..<6]. \<not> isl (Interval_strToInterval (js_nth table (int i + 1)))"
    by (auto simp: list_all_iff)
  have "table_loop table (contains_aug chordid) n [0..<7] (False, []) = Inl TypeError"
  proof (rule table_loop_throws [of _ _ 6])
    show "\<forall>j \<in> set [0..<7]. js_nth table (int j + 1) = None
             \<or> \<not> isl (Interval_strToInterval (js_nth table (int j + 1)))"
    proof
      fix j assume "j \<in> set [0..<7]"
      then have "j \<in> set [0..<6] \<or> j = 6" by auto
      with ok past show "js_nth table (int j + 1) = None
             \<or> \<not> isl (Interval_strToInterval (js_nth table (int j + 1)))"
        by auto
    qed
    show "6 \<in> set [0..<7]" by simp
    show "int 6 + 1 \<le> n div 2" using n by simp
    show "js_nth table (int 6 + 1) = None" using past by simp
  qed
  then show ?thesis
    by (simp add: Chord_idToChord_def Some m len)
qed

text \<open>
  Together: \<open>idToChord\<close> either returns a chord or throws a \<open>TypeError\<close>; the
  mark for a \<open>NaN\<close> number is never reached.
\<close>

lemma idToChord_outcome:
  "(\<exists>c. Chord_idToChord chordid = Inr c) \<or> Chord_idToChord chordid = Inl TypeError"
proof -
  from parsed_mainNumber_defined obtain n where n: "parsed_mainNumber chordid = Some n"
    by blast
  show ?thesis
  proof (cases "match_quality chordid = Some ''^aug''")
    case True
    then have "MAINS (parsed_quality chordid) = None"
      using MAINS_parsed_quality by blast
    then show ?thesis by (simp add: Chord_idToChord_def)
  next
    case False
    show ?thesis
    proof (cases "n \<le> 13")
      case True
      with False n idToChord_total show ?thesis by blast
    next
      case False
      then have "14 \<le> n" by simp
      with n idToChord_throws show ?thesis by blast
    qed
  qed
qed

text \<open>
  C10. \<open>idToChord\<close> should return a chord for every chord-ID whose parsed main
  number is at most 13. It does not for the ids that hold \<open>^aug\<close>: the quality
  pattern reads the tag as the quality "aug", \<open>Chord.MAINS\<close> has no table for it,
  and reading the table's length throws. The id of the augmented triad is such an id,
  with main number 3. Without the tag the ids with main number 13 are decoded, and
  those from 14 on throw, since the loop hands entry 7 of the seven-entry table to
  \<open>strToInterval\<close>.
\<close>

theorem C10_aug_id_throws:
  "Chord_id (Chord_new [M3, A5]) None = ''^aug3A5''
   \<and> parsed_mainNumber ''^aug3A5'' = Some 3
   \<and> parsed_quality ''^aug3A5'' = ''aug''
   \<and> MAINS ''aug'' = None
   \<and> Chord_idToChord ''^aug3A5'' = Inl TypeError
   \<and> parsed_mainNumber ''^aug'' = Some 5
   \<and> Chord_idToChord ''^aug'' = Inl TypeError
   \<and> parsed_mainNumber ''C^min13'' = Some 13
   \<and> Chord_idToChord ''C^min13''
       = Inr (ChordWithBase_new C4
               [m3, P5, m7, Interval_new 9 0, Interval_new 11 0, Interval_new 13 0])
   \<and> parsed_mainNumber ''C^14'' = Some 14
   \<and> Chord_idToChord ''C^14'' = Inl TypeError"
  by code_simp

section \<open>Matching scales\<close>

lemma all_scales_defined:
  "list_all (\<lambda>ns. \<not> isl (scale_pitch_classes (fst ns) (snd ns))) (List.product NOTES SCALES)"
  by code_simp

lemma labels_distinct: "distinct (map scale_label (List.product NOTES SCALES))"
  by code_simp

lemma map_of_relabel:
  "map_of (map (\<lambda>e. if fst e = p then (fst e, snd e @ [l]) else e) tbl) q
     = (if q = p then map_option (\<lambda>ls. ls @ [l]) (map_of tbl p) else map_of tbl q)"
  by (induction tbl) auto

lemma group_of_push_label:
  "l' \<in> set (group_of (push_label p l tbl) q)
     \<longleftrightarrow> l' \<in> set (group_of tbl q) \<or> (l' = l \<and> q = p)"
proof (cases "map_of tbl p")
  case None
  then have "push_label p l tbl = tbl @ [(p, [l])]"
    by (simp add: push_label_def)
  with None show ?thesis
    by (auto simp: group_of_def map_add_def split: option.splits)
next
  case (Some ls)
  then have "push_label p l tbl = map (\<lambda>e. if fst e = p then (fst e, snd e @ [l]) else e) tbl"
    by (simp add: push_label_def)
  with Some show ?thesis
    by (auto simp: group_of_def map_of_relabel split: option.splits)
qed

lemma scales_loop_groups:
  assumes "\<forall>ns \<in> set pairs. \<not> isl (scale_pitch_classes (fst ns) (snd ns))"
  shows "\<exists>out. scales_loop chordNotes pairs tbl = Inr out
           \<and> (\<forall>l q. l \<in> set (group_of out q) \<longleftrightarrow>
                 l \<in> set (group_of tbl q)
                 \<or> (\<exists>ns \<in> set pairs. \<exists>scaleNotes.
                       scale_pitch_classes (fst ns) (snd ns) = Inr scaleNotes
                       \<and> l = scale_label ns \<and> q = proportion chordNotes scaleNotes))"
  using assms
proof (induction pairs arbitrary: tbl)
  case Nil
  then show ?case by simp
next
  case (Cons ns rest)
  then obtain scaleNotes where s: "scale_pitch_classes (fst ns) (snd ns) = Inr scaleNotes"
    by (cases "scale_pitch_classes (fst ns) (snd ns)") auto
  from Cons.prems have "\<forall>ns \<in> set rest. \<not> isl (scale_pitch_classes (fst ns) (snd ns))"
    by simp
  from Cons.IH [OF this, of "push_label (proportion chordNotes scaleNotes) (scale_label ns) tbl"]
  obtain out where out: "scales_loop chordNotes rest
        (push_label (proportion chordNotes scaleNotes) (scale_label ns) tbl) = Inr out"
    and g: "\<And>l q. l \<in> set (group_of out q) \<longleftrightarrow>
                 l \<in> set (group_of (push_label (proportion chordNotes scaleNotes) (scale_label ns) tbl) q)
                 \<or> (\<exists>ns \<in> set rest. \<exists>scaleNotes.
                       scale_pitch_classes (fst ns) (snd ns) = Inr scaleNotes
                       \<and> l = scale_label ns \<and> q = proportion chordNotes scaleNotes)"
    by blast
  have "scales_loop chordNotes (ns # rest) tbl = Inr out"
    using s out by simp
  moreover have "\<forall>l q. l \<in> set (group_of out q) \<longleftrightarrow>
                 l \<in> set (group_of tbl q)
                 \<or> (\<exists>ns' \<in> set (ns # rest). \<exists>scaleNotes.
                       scale_pitch_classes (fst ns') (snd ns') = Inr scaleNotes
                       \<and> l = scale_label ns' \<and> q = proportion chordNotes scaleNotes)"
    unfolding g group_of_push_label using s by auto
  ultimately show ?case by blast
qed

lemma proportion_as_sets:
  assumes "distinct chordNotes"
  shows "proportion chordNotes scaleNotes
         = of_nat (card (set chordNotes \<inter> set scaleNotes)) / of_nat (card (set chordNotes))"
proof -
  have "set (filter (\<lambda>n. n \<in> set scaleNotes) chordNotes) = set chordNotes \<inter> set scaleNotes"
    by auto
  moreover have "distinct (filter (\<lambda>n. n \<in> set scaleNotes) chordNotes)"
    using assms by simp
  ultimately have "length (filter (\<lambda>n. n \<in> set scaleNotes) chordNotes)
      = card (set chordNotes \<inter> set scaleNotes)"
    using distinct_card by metis
  moreover have "length chordNotes = card (set chordNotes)"
    using assms distinct_card by metis
  ultimately show ?thesis by (simp add: proportion_def)
qed

lemma findMatchingScales_groups:
  assumes cn: "chord_pitch_classes b ivs = Inr chordNotes"
  shows "\<exists>tbl. ChordWithBase_findMatchingScales b ivs = Inr tbl
     \<and> (\<forall>ns \<in> set (List.product NOTES SCALES). \<exists>scaleNotes.
           scale_pitch_classes (fst ns) (snd ns) = Inr scaleNotes
           \<and> (\<forall>p. scale_label ns \<in> set (group_of tbl p) \<longleftrightarrow> p = proportion chordNotes scaleNotes))"
proof -
  have ok: "\<forall>ns \<in> set (List.product NOTES SCALES). \<not> isl (scale_pitch_classes (fst ns) (snd ns))"
    using all_scales_defined by (simp add: list_all_iff)
  from scales_loop_groups [OF ok, of chordNotes "[]"]
  obtain tbl where tbl: "scales_loop chordNotes (List.product NOTES SCALES) [] = Inr tbl"
    and g: "\<And>l q. l \<in> set (group_of tbl q) \<longleftrightarrow>
              (\<exists>ns \<in> set (List.product NOTES SCALES). \<exists>scaleNotes.
                  scale_pitch_classes (fst ns) (snd ns) = Inr scaleNotes
                  \<and> l = scale_label ns \<and> q = proportion chordNotes scaleNotes)"
    by (auto simp: group_of_def)
  have inj: "inj_on scale_label (set (List.product NOTES SCALES))"
    using labels_distinct by (simp add: distinct_map)
  have "\<forall>ns \<in> set (List.product NOTES SCALES). \<exists>scaleNotes.
           scale_pitch_classes (fst ns) (snd ns) = Inr scaleNotes
           \<and> (\<forall>p. scale_label ns \<in> set (group_of tbl p) \<longleftrightarrow> p = proportion chordNotes scaleNotes)"
  proof
    fix ns assume ns: "ns \<in> set (List.product NOTES SCALES)"
    with ok have "\<not> isl (scale_pitch_classes (fst ns) (snd ns))"
      by blast
    then obtain scaleNotes where s: "scale_pitch_classes (fst ns) (snd ns) = Inr scaleNotes"
      by (cases "scale_pitch_classes (fst ns) (snd ns)") auto
    have "\<forall>p. scale_label ns \<in> set (group_of tbl p) \<longleftrightarrow> p = proportion chordNotes scaleNotes"
    proof
      fix p
      show "scale_label ns \<in> set (group_of tbl p) \<longleftrightarrow> p = proportion chordNotes scaleNotes"
      proof
        assume "scale_label ns \<in> set (group_of tbl p)"
        then obtain ns' sn' where ns': "ns' \<in> set (List.product NOTES SCALES)"
          and s': "scale_pitch_classes (fst ns') (snd ns') = Inr sn'"
          and l: "scale_label ns = scale_label ns'" and p: "p = proportion chordNotes sn'"
          unfolding g by blast
        from inj l ns ns' have "ns = ns'" by (rule inj_onD)
        with s s' p show "p = proportion chordNotes scaleNotes" by simp
      next
        assume "p = proportion chordNotes scaleNotes"
        with ns s show "scale_label ns \<in> set (group_of tbl p)"
          unfolding g by blast
      qed
    qed
    with s show "\<exists>scaleNotes.
           scale_pitch_classes (fst ns) (snd ns) = Inr scaleNotes
           \<and> (\<forall>p. scale_label ns \<in> set (group_of tbl p) \<longleftrightarrow> p = proportion chordNotes scaleNotes)"
      by blast
  qed
  with tbl cn show ?thesis
    by (simp add: ChordWithBase_findMatchingScales_def)
qed

text \<open>
  C6 (as the code has it). For each of the 12 roots and each built-in scale,
  \<open>findMatchingScales\<close> files the label "root scale" under exactly one proportion:
  the number of the chord's notes (the base and one per interval, counted with
  repetition) whose pitch class occurs in the scale, divided by the number of the
  chord's notes. When the chord's pitch classes are pairwise distinct this is the size
  of the intersection of the two pitch-class sets over the size of the chord's set.
  For the major triad on C, "C major" and every scale whose pitch classes include
  0, 4 and 7 are filed under proportion 1.
\<close>

theorem C6_findMatchingScales_groups:
  "(chord_pitch_classes b ivs = Inr chordNotes \<longrightarrow>
      (\<exists>tbl. ChordWithBase_findMatchingScales b ivs = Inr tbl
         \<and> (\<forall>ns \<in> set (List.product NOTES SCALES). \<exists>scaleNotes.
               scale_pitch_classes (fst ns) (snd ns) = Inr scaleNotes
               \<and> (\<forall>p. scale_label ns \<in> set (group_of tbl p)
                        \<longleftrightarrow> p = proportion chordNotes scaleNotes)
               \<and> (distinct chordNotes \<longrightarrow>
                    proportion chordNotes scaleNotes
                    = of_nat (card (set chordNotes \<inter> set scaleNotes))
                      / of_nat (card (set chordNotes))))))
   \<and> chord_pitch_classes C4 [M3, P5] = Inr [0, 4, 7]
   \<and> (\<exists>tbl. ChordWithBase_findMatchingScales C4 [M3, P5] = Inr tbl
         \<and> ''C major'' \<in> set (group_of tbl 1)
         \<and> (\<forall>ns \<in> set (List.product NOTES SCALES). \<forall>scaleNotes.
               scale_pitch_classes (fst ns) (snd ns) = Inr scaleNotes
               \<and> {0, 4, 7} \<subseteq> set scaleNotes
               \<longrightarrow> scale_label ns \<in> set (group_of tbl 1)))"
proof -
  have general: "chord_pitch_classes b ivs = Inr chordNotes \<longrightarrow>
      (\<exists>tbl. ChordWithBase_findMatchingScales b ivs = Inr tbl
         \<and> (\<forall>ns \<in> set (List.product NOTES SCALES). \<exists>scaleNotes.
               scale_pitch_classes (fst ns) (snd ns) = Inr scaleNotes
               \<and> (\<forall>p. scale_label ns \<in> set (group_of tbl p)
                        \<longleftrightarrow> p = proportion chordNotes scaleNotes)
               \<and> (distinct chordNotes \<longrightarrow>
                    proportion chordNotes scaleNotes
                    = of_nat (card (set chordNotes \<inter> set scaleNotes))
                      / of_nat (card (set chordNotes)))))"
    using findMatchingScales_groups [of b ivs chordNotes] proportion_as_sets [of chordNotes]
    by blast
  have triad: "chord_pitch_classes C4 [M3, P5] = Inr [0, 4, 7]"
    by code_simp
  from findMatchingScales_groups [OF triad] obtain tbl
    where tbl: "ChordWithBase_findMatchingScales C4 [M3, P5] = Inr tbl"
      and g: "\<And>ns. ns \<in> set (List.product NOTES SCALES) \<Longrightarrow> \<exists>scaleNotes.
           scale_pitch_classes (fst ns) (snd ns) = Inr scaleNotes
           \<and> (\<forall>p. scale_label ns \<in> set (group_of tbl p) \<longleftrightarrow> p = proportion [0, 4, 7] scaleNotes)"
    by blast
  have full: "scale_label ns \<in> set (group_of tbl 1)"
    if "ns \<in> set (List.product NOTES SCALES)"
      and "scale_pitch_classes (fst ns) (snd ns) = Inr scaleNotes"
      and "{0, 4, 7} \<subseteq> set scaleNotes" for ns scaleNotes
  proof -
    from that(3) have "proportion [0, 4, 7] scaleNotes = 1"
      by (simp add: proportion_def)
    with g [OF that(1)] that(2) show ?thesis by auto
  qed
  have cmaj: "(''C'', ''major'') \<in> set (List.product NOTES SCALES)"
    by (simp add: NOTES_def SCALES_def)
  have "scale_pitch_classes ''C'' ''major'' = Inr [0, 2, 4, 5, 7, 9, 11]"
    by code_simp
  with full [OF cmaj, of "[0, 2, 4, 5, 7, 9, 11]"]
  have "''C major'' \<in> set (group_of tbl 1)"
    by (simp add: scale_label_def)
  with tbl full general triad show ?thesis by blast
qed

theorem C6_findMatchingScales_witness:
  "chord_pitch_classes C4 [M3, P5] = Inr [0, 4, 7] \<and> distinct [0, 4, 7 :: int]
   \<and> scale_pitch_classes ''G'' ''major'' = Inr [7, 9, 11, 0, 2, 4, 6]
   \<and> (\<exists>tbl. ChordWithBase_findMatchingScales C4 [M3, P5] = Inr tbl
          \<and> ''G major'' \<in> set (group_of tbl 1) \<and> ''G major'' \<notin> set (group_of tbl (2 / 3)))"
proof -
  have triad: "chord_pitch_classes C4 [M3, P5] = Inr [0, 4, 7]"
    by code_simp
  have gmaj: "(''G'', ''major'') \<in> set (List.product NOTES SCALES)"
    by (simp add: NOTES_def SCALES_def)
  have pcs: "scale_pitch_classes ''G'' ''major'' = Inr [7, 9, 11, 0, 2, 4, 6]"
    by code_simp
  have whole: "proportion [0, 4, 7] [7, 9, 11, 0, 2, 4, 6] = 1"
    by (simp add: proportion_def)
  from C6_findMatchingScales_groups [of C4 "[M3, P5]" "[0, 4, 7]"] triad obtain tbl
    where tbl: "ChordWithBase_findMatchingScales C4 [M3, P5] = Inr tbl"
      and g: "\<forall>ns \<in> set (List.product NOTES SCALES). \<exists>scaleNotes.
               scale_pitch_classes (fst ns) (snd ns) = Inr scaleNotes
               \<and> (\<forall>p. scale_label ns \<in> set (group_of tbl p)
                        \<longleftrightarrow> p = proportion [0, 4, 7] scaleNotes)
               \<and> (distinct [0, 4, 7 :: int] \<longrightarrow>
                    proportion [0, 4, 7] scaleNotes
                    = of_nat (card (set [0, 4, 7] \<inter> set scaleNotes))
                      / of_nat (card (set [0, 4, 7 :: int])))"
    by blast
  from g gmaj pcs have "\<forall>p. scale_label (''G'', ''major'') \<in> set (group_of tbl p)
                        \<longleftrightarrow> p = proportion [0, 4, 7] [7, 9, 11, 0, 2, 4, 6]"
    by fastforce
  with whole have "''G major'' \<in> set (group_of tbl 1) \<and> ''G major'' \<notin> set (group_of tbl (2 / 3))"
    by (simp add: scale_label_def)
  with tbl triad pcs show ?thesis by simp
qed

text \<open>
  The set formula of the claim fails where two notes of the chord share a pitch class:
  C4 with a major 3rd and a major 10th has the pitch classes 0, 4, 4; one of the three
  is in C natural minor, so the label is filed under 1/3, while the sets give 1/2.
\<close>

theorem C6_repeated_pitch_class_counterexample:
  "chord_pitch_classes C4 [M3, M10] = Inr [0, 4, 4]
   \<and> scale_pitch_classes ''C'' ''natural minor'' = Inr [0, 2, 3, 5, 7, 8, 10]
   \<and> rat_of_nat (card (set [0, 4, 4 :: int] \<inter> set [0, 2, 3, 5, 7, 8, 10]))
       / rat_of_nat (card (set [0, 4, 4 :: int])) = 1 / 2
   \<and> map_sum id (\<lambda>t. (''C natural minor'' \<in> set (group_of t (1 / 2)),
                        ''C natural minor'' \<in> set (group_of t (1 / 3))))
        (ChordWithBase_findMatchingScales C4 [M3, M10]) = Inr (False, True)"
proof -
  have "chord_pitch_classes C4 [M3, M10] = Inr [0, 4, 4]"
    by code_simp
  moreover have "scale_pitch_classes ''C'' ''natural minor'' = Inr [0, 2, 3, 5, 7, 8, 10]"
    by code_simp
  moreover have "rat_of_nat (card (set [0, 4, 4 :: int] \<inter> set [0, 2, 3, 5, 7, 8, 10]))
       / rat_of_nat (card (set [0, 4, 4 :: int])) = 1 / 2"
    by simp
  moreover have "map_sum id (\<lambda>t. (''C natural minor'' \<in> set (group_of t (1 / 2)),
                        ''C natural minor'' \<in> set (group_of t (1 / 3))))
        (ChordWithBase_findMatchingScales C4 [M3, M10]) = Inr (False, True)"
    by code_simp
  ultimately show ?thesis by simp
qed

end
